theory Spec2Isabelle
  imports Main "HOL-Library.Word"
begin

unbundle bit_operations_syntax

section \<open>CozyFS: error codes\<close>

text \<open>
  The enumeration of \<^verbatim>\<open>cozyfs.h\<close>: \<^verbatim>\<open>COZYFS_OK\<close> is 0 and the
  errors count up from 1. Every operation returns a C \<^verbatim>\<open>int\<close>: 0 or a
  non-negative value on success, the negated enumerator on failure.
\<close>

definition COZYFS_OK :: int where "COZYFS_OK = 0"
definition COZYFS_EINVAL :: int where "COZYFS_EINVAL = 1"
definition COZYFS_ENOMEM :: int where "COZYFS_ENOMEM = 2"
definition COZYFS_ENOENT :: int where "COZYFS_ENOENT = 3"
definition COZYFS_EPERM :: int where "COZYFS_EPERM = 4"
definition COZYFS_EBUSY :: int where "COZYFS_EBUSY = 5"
definition COZYFS_EISDIR :: int where "COZYFS_EISDIR = 6"
definition COZYFS_ENFILE :: int where "COZYFS_ENFILE = 7"
definition COZYFS_EBADF :: int where "COZYFS_EBADF = 8"
definition COZYFS_ETIMEDOUT :: int where "COZYFS_ETIMEDOUT = 9"
definition COZYFS_ECORRUPT :: int where "COZYFS_ECORRUPT = 10"
definition COZYFS_ESYSFREE :: int where "COZYFS_ESYSFREE = 11"
definition COZYFS_ESYSSYNC :: int where "COZYFS_ESYSSYNC = 12"
definition COZYFS_ESYSTIME :: int where "COZYFS_ESYSTIME = 13"

lemmas errno_defs =
  COZYFS_OK_def COZYFS_EINVAL_def COZYFS_ENOMEM_def COZYFS_ENOENT_def COZYFS_EPERM_def
  COZYFS_EBUSY_def COZYFS_EISDIR_def COZYFS_ENFILE_def COZYFS_EBADF_def
  COZYFS_ETIMEDOUT_def COZYFS_ECORRUPT_def COZYFS_ESYSFREE_def COZYFS_ESYSSYNC_def
  COZYFS_ESYSTIME_def

section \<open>The path parser\<close>

text \<open>
  \<^verbatim>\<open>parse_path(string path, string *comps, int max)\<close>. A \<^verbatim>\<open>string\<close> is a
  pointer with a length; the model uses the byte list itself, and a component
  \<^verbatim>\<open>{ path.data + off, len }\<close> is the slice \<open>take len (drop off path)\<close>. The
  output array \<^verbatim>\<open>comps\<close> is a list that the caller supplies (its cells are not
  initialised in C) and that is returned updated next to the \<^verbatim>\<open>int\<close> result.
  \<^verbatim>\<open>ASSERT\<close> is \<^verbatim>\<open>__builtin_trap()\<close>: a call that traps does not return, which
  is the result \<open>None\<close>.
\<close>

text \<open>The inner loop \<^verbatim>\<open>while (i < path.size && path.data[i] != '/') i++;\<close>\<close>

function scan_comp :: "string \<Rightarrow> nat \<Rightarrow> nat" where
  "scan_comp path i =
     (if i < length path \<and> path ! i \<noteq> CHR ''/'' then scan_comp path (i + 1) else i)"
  by pat_completeness auto
termination
  by (relation "measure (\<lambda>(path, i). length path - i)") auto

declare scan_comp.simps [simp del]

text \<open>\<^verbatim>\<open>comp.size == 2 && comp.data[0] == '.' && comp.data[1] == '.'\<close>\<close>

definition is_dotdot :: "string \<Rightarrow> bool" where
  "is_dotdot c \<longleftrightarrow> length c = 2 \<and> c ! 0 = CHR ''.'' \<and> c ! 1 = CHR ''.''"

text \<open>The negation of \<^verbatim>\<open>comp.size != 1 || comp.data[0] != '.'\<close>\<close>

definition is_dot :: "string \<Rightarrow> bool" where
  "is_dot c \<longleftrightarrow> \<not> (length c \<noteq> 1 \<or> c ! 0 \<noteq> CHR ''.'')"

text \<open>The body of \<^verbatim>\<open>for (;;)\<close>, entered with the cursor \<open>i\<close> and the stack height \<open>num\<close>.\<close>

function parse_loop ::
  "string \<Rightarrow> nat \<Rightarrow> nat \<Rightarrow> string list \<Rightarrow> nat \<Rightarrow> (int \<times> string list) option" where
  "parse_loop path mx i comps num =
     (let off = i;
          i1 = scan_comp path i;
          len = i1 - off
      in if len = 0 then Some (- COZYFS_EINVAL, comps)
         else
           let cmp = take len (drop off path) in
           if is_dotdot cmp \<and> num = 0 then Some (- COZYFS_EINVAL, comps)
           else if \<not> is_dotdot cmp \<and> \<not> is_dot cmp \<and> num = mx
             then Some (- COZYFS_ENOMEM, comps)
           else
             let comps' = (if \<not> is_dotdot cmp \<and> \<not> is_dot cmp then comps[num := cmp]
                           else comps);
                 num' = (if is_dotdot cmp then num - 1
                         else if \<not> is_dot cmp then num + 1 else num)
             in if i1 = length path then Some (int num', comps')
                else if path ! i1 \<noteq> CHR ''/'' then None
                else if i1 + 1 = length path then Some (int num', comps')
                else parse_loop path mx (i1 + 1) comps' num')"
  by pat_completeness auto

lemma scan_comp_step:
  "i < length path \<Longrightarrow> path ! i \<noteq> CHR ''/'' \<Longrightarrow> scan_comp path i = scan_comp path (i + 1)"
  by (subst scan_comp.simps) auto

lemma scan_comp_stop:
  "\<not> (i < length path \<and> path ! i \<noteq> CHR ''/'') \<Longrightarrow> scan_comp path i = i"
  by (subst scan_comp.simps) auto

lemma scan_comp_ge: "i \<le> scan_comp path i"
proof (induction path i rule: scan_comp.induct)
  case (1 path i)
  show ?case
  proof (cases "i < length path \<and> path ! i \<noteq> CHR ''/''")
    case True
    with 1 have "i + 1 \<le> scan_comp path (i + 1)" by simp
    with True show ?thesis by (simp add: scan_comp_step)
  next
    case False
    then show ?thesis by (simp add: scan_comp_stop)
  qed
qed

lemma scan_comp_le: "i \<le> length path \<Longrightarrow> scan_comp path i \<le> length path"
proof (induction path i rule: scan_comp.induct)
  case (1 path i)
  show ?case
  proof (cases "i < length path \<and> path ! i \<noteq> CHR ''/''")
    case True
    with 1 have "scan_comp path (i + 1) \<le> length path" by simp
    with True show ?thesis by (simp add: scan_comp_step)
  next
    case False
    with 1(2) show ?thesis by (simp add: scan_comp_stop)
  qed
qed

lemma scan_comp_beyond: "length path \<le> i \<Longrightarrow> scan_comp path i = i"
  by (simp add: scan_comp_stop)

termination parse_loop
proof (relation "measure (\<lambda>(path, mx, i, comps, num). length path - i)", goal_cases)
  case 1
  show ?case by simp
next
  case (2 path mx i comps num off i1 len cmp comps' num')
  have lt: "i < length path"
  proof (rule ccontr)
    assume "\<not> i < length path"
    then have "scan_comp path i = i" by (simp add: scan_comp_beyond)
    with 2 show False by simp
  qed
  have "i1 \<le> length path" using 2 lt by (simp add: scan_comp_le)
  moreover have "i \<le> i1" using 2 by (simp add: scan_comp_ge)
  ultimately show ?case using 2 by simp
qed

declare parse_loop.simps [simp del]

text \<open>The whole function: the optional leading \<^verbatim>\<open>'/'\<close>, then the loop.\<close>

definition parse_path :: "string \<Rightarrow> string list \<Rightarrow> nat \<Rightarrow> (int \<times> string list) option" where
  "parse_path path comps mx =
     (if length path > 0 \<and> path ! 0 = CHR ''/''
      then (if length path - 1 = 0 then Some (0, comps)
            else parse_loop (drop 1 path) mx 0 comps 0)
      else parse_loop path mx 0 comps 0)"


section \<open>Memory\<close>

text \<open>
  The storage engine works on raw bytes through casts, so the model keeps one
  byte-addressed memory for the whole process: the attached buffer and the pages the
  host allocator hands out both live in it. A host address is a natural number and
  \<^verbatim>\<open>NULL\<close> is 0. Multi-byte fields are little-endian, as the format requires.
\<close>

type_synonym u8 = "8 word"
type_synonym u16 = "16 word"
type_synonym u32 = "32 word"
type_synonym u64 = "64 word"
type_synonym addr = nat
type_synonym heap = "addr \<Rightarrow> u8"

definition NULL :: addr where "NULL = 0"

definition load_u16 :: "heap \<Rightarrow> addr \<Rightarrow> u16" where
  "load_u16 h a = word_cat (h (a + 1)) (h a)"

definition load_u32 :: "heap \<Rightarrow> addr \<Rightarrow> u32" where
  "load_u32 h a = word_cat (load_u16 h (a + 2)) (load_u16 h a)"

definition load_u64 :: "heap \<Rightarrow> addr \<Rightarrow> u64" where
  "load_u64 h a = word_cat (load_u32 h (a + 4)) (load_u32 h a)"

definition store_u16 :: "heap \<Rightarrow> addr \<Rightarrow> u16 \<Rightarrow> heap" where
  "store_u16 h a v = h(a := ucast v, a + 1 := ucast (drop_bit 8 v))"

definition store_u32 :: "heap \<Rightarrow> addr \<Rightarrow> u32 \<Rightarrow> heap" where
  "store_u32 h a v = store_u16 (store_u16 h a (ucast v)) (a + 2) (ucast (drop_bit 16 v))"

definition store_u64 :: "heap \<Rightarrow> addr \<Rightarrow> u64 \<Rightarrow> heap" where
  "store_u64 h a v = store_u32 (store_u32 h a (ucast v)) (a + 4) (ucast (drop_bit 32 v))"

text \<open>
  \<^verbatim>\<open>my_memcpy\<close> copies forwards, byte by byte: after \<open>n\<close> rounds of
  \<^verbatim>\<open>dstc[i] = srcc[i]\<close> the memory is \<open>my_memcpy h dst src n\<close>. When the source
  is a caller's \<^verbatim>\<open>string\<close> (a name) the bytes come from the list:
  \<open>store_string\<close>. \<^verbatim>\<open>my_memset\<close> likewise.
\<close>

fun my_memcpy :: "heap \<Rightarrow> addr \<Rightarrow> addr \<Rightarrow> nat \<Rightarrow> heap" where
  "my_memcpy h dst src 0 = h"
| "my_memcpy h dst src (Suc n) =
     (let h' = my_memcpy h dst src n in h'(dst + n := h' (src + n)))"

fun my_memset :: "heap \<Rightarrow> addr \<Rightarrow> u8 \<Rightarrow> nat \<Rightarrow> heap" where
  "my_memset h dst c 0 = h"
| "my_memset h dst c (Suc n) = (my_memset h dst c n)(dst + n := c)"

fun store_string :: "heap \<Rightarrow> addr \<Rightarrow> string \<Rightarrow> nat \<Rightarrow> heap" where
  "store_string h dst s 0 = h"
| "store_string h dst s (Suc n) = (store_string h dst s n)(dst + n := of_char (s ! n))"

text \<open>The loop \<^verbatim>\<open>while (i < n && c(i)) i++;\<close> and the index it stops at.\<close>

function scan_while :: "(nat \<Rightarrow> bool) \<Rightarrow> nat \<Rightarrow> nat \<Rightarrow> nat" where
  "scan_while c n i = (if i < n \<and> c i then scan_while c n (i + 1) else i)"
  by pat_completeness auto
termination
  by (relation "measure (\<lambda>(c, n, i). n - i)") auto

declare scan_while.simps [simp del]

text \<open>
  \<^verbatim>\<open>my_strlen\<close> runs until it meets a zero byte, however far that is; \<open>None\<close> is
  the call that never returns. \<^verbatim>\<open>memeq(p1, p2, len)\<close> compares a caller's name
  with bytes of the memory and stops at the first difference.
\<close>

partial_function (option) my_strlen_from :: "heap \<Rightarrow> addr \<Rightarrow> nat \<Rightarrow> nat option" where
  "my_strlen_from h str len =
     (if h (str + len) \<noteq> 0 then my_strlen_from h str (len + 1) else Some len)"

declare my_strlen_from.simps [code]

definition my_strlen :: "heap \<Rightarrow> addr \<Rightarrow> nat option" where
  "my_strlen h str = (if str = NULL then Some 0 else my_strlen_from h str 0)"

definition memeq :: "string \<Rightarrow> heap \<Rightarrow> addr \<Rightarrow> nat \<Rightarrow> bool" where
  "memeq p1 h p2 len \<longleftrightarrow> scan_while (\<lambda>i. of_char (p1 ! i) = h (p2 + i)) len 0 = len"

section \<open>Layout of the pages\<close>

text \<open>
  Byte offsets of the fields, as the declarations and their
  \<^verbatim>\<open>STATIC_ASSERT(sizeof(...) == ...)\<close> fix them (a \<^verbatim>\<open>u64\<close> is aligned to 8, which
  is what makes \<^verbatim>\<open>sizeof(RPage) == 4096\<close>).
\<close>

type_synonym Offset = u32

definition INVALID_OFFSET :: Offset where "INVALID_OFFSET = 0xFFFFFFFF"
definition ENTITY_DIR :: u32 where "ENTITY_DIR = 1"
definition ENTITY_FILE :: u32 where "ENTITY_FILE = 2"
definition BACKUP_NO :: int where "BACKUP_NO = - 1"
definition BACKUP_HALF_ACTIVE :: int where "BACKUP_HALF_ACTIVE = 1"
definition BACKUP_HALF_INACTIVE :: int where "BACKUP_HALF_INACTIVE = 0"
definition COZYFS_MAX_PATCHES :: nat where "COZYFS_MAX_PATCHES = 128"
definition MAX_NAME :: nat where "MAX_NAME = 128"
definition MAX_USER_NAME :: nat where "MAX_USER_NAME = 30"

text \<open>\<^verbatim>\<open>RPage\<close>\<close>

definition RPage_lock :: nat where "RPage_lock = 8"
definition RPage_backup :: nat where "RPage_backup = 16"
definition RPage_last_backup_time :: nat where "RPage_last_backup_time = 24"
definition RPage_next_account_id :: nat where "RPage_next_account_id = 32"
definition RPage_tail_upage :: nat where "RPage_tail_upage = 48"
definition RPage_tail_upage_used :: nat where "RPage_tail_upage_used = 52"
definition RPage_free_pages :: nat where "RPage_free_pages = 56"
definition RPage_tot_pages :: nat where "RPage_tot_pages = 60"
definition RPage_num_pages :: nat where "RPage_num_pages = 64"
definition RPage_root :: nat where "RPage_root = 68"
definition RPage_handles :: nat where "RPage_handles = 92"
definition COUNT_handles :: nat where "COUNT_handles = 333"

text \<open>\<^verbatim>\<open>Entity\<close> (24 bytes)\<close>

definition Entity_refs :: nat where "Entity_refs = 0"
definition Entity_flags :: nat where "Entity_flags = 4"
definition Entity_head :: nat where "Entity_head = 8"
definition Entity_tail :: nat where "Entity_tail = 12"
definition Entity_head_start :: nat where "Entity_head_start = 20"
definition Entity_tail_end :: nat where "Entity_tail_end = 22"

text \<open>\<^verbatim>\<open>DPage\<close>: 26 links of 132 bytes from byte 24, 26 entities of 24 bytes from byte 3456\<close>

definition DPage_next :: nat where "DPage_next = 20"
definition COUNT_links :: nat where "COUNT_links = 26"
definition COUNT_ents :: nat where "COUNT_ents = 26"
definition sizeof_Link :: nat where "sizeof_Link = 132"

definition link_off :: "addr \<Rightarrow> nat \<Rightarrow> addr" where
  "link_off dpage i = dpage + 24 + 132 * i"

definition link_name :: "addr \<Rightarrow> nat \<Rightarrow> addr" where
  "link_name dpage i = dpage + 24 + 132 * i + 4"

definition dpage_ent :: "addr \<Rightarrow> nat \<Rightarrow> addr" where
  "dpage_ent dpage j = dpage + 3456 + 24 * j"

text \<open>\<^verbatim>\<open>Handle\<close> (12 bytes)\<close>

definition Handle_used :: nat where "Handle_used = 0"
definition Handle_gen :: nat where "Handle_gen = 2"
definition Handle_entity :: nat where "Handle_entity = 4"

definition root_handle :: "addr \<Rightarrow> nat \<Rightarrow> addr" where
  "root_handle root i = root + 92 + 12 * i"

text \<open>\<^verbatim>\<open>UPage\<close>: 127 users of 32 bytes from byte 12; \<^verbatim>\<open>User\<close>: id, then the name\<close>

definition COUNT_users :: nat where "COUNT_users = 127"
definition UPage_prev :: nat where "UPage_prev = 4"
definition UPage_next :: nat where "UPage_next = 8"

definition upage_user :: "addr \<Rightarrow> nat \<Rightarrow> addr" where
  "upage_user upage i = upage + 12 + 32 * i"

definition User_name :: nat where "User_name = 2"

lemmas layout_defs =
  NULL_def INVALID_OFFSET_def ENTITY_DIR_def ENTITY_FILE_def BACKUP_NO_def
  BACKUP_HALF_ACTIVE_def BACKUP_HALF_INACTIVE_def COZYFS_MAX_PATCHES_def MAX_NAME_def
  MAX_USER_NAME_def RPage_lock_def RPage_backup_def RPage_last_backup_time_def
  RPage_next_account_id_def RPage_tail_upage_def RPage_tail_upage_used_def
  RPage_free_pages_def RPage_tot_pages_def RPage_num_pages_def RPage_root_def
  RPage_handles_def COUNT_handles_def Entity_refs_def Entity_flags_def Entity_head_def
  Entity_tail_def Entity_head_start_def Entity_tail_end_def DPage_next_def
  COUNT_links_def COUNT_ents_def sizeof_Link_def link_off_def link_name_def
  dpage_ent_def Handle_used_def Handle_gen_def Handle_entity_def root_handle_def
  COUNT_users_def UPage_prev_def UPage_next_def upage_user_def User_name_def


section \<open>The session and the host\<close>

text \<open>
  \<^verbatim>\<open>CozyFS\<close> of \<^verbatim>\<open>cozyfs.h\<close>: the per-attacher state. The two patch arrays have
  \<^verbatim>\<open>COZYFS_MAX_PATCHES\<close> cells each; \<^verbatim>\<open>userptr\<close> and \<^verbatim>\<open>callback\<close> are the
  host below.
\<close>

datatype transaction_mode = TRANSACTION_OFF | TRANSACTION_ON | TRANSACTION_TIMEOUT

record CozyFS =
  mem :: addr
  ticket :: u64
  transaction :: transaction_mode
  patch_count :: nat
  patch_offs :: "u32 list"
  patch_ptrs :: "addr list"

text \<open>
  The host is reached through one callback. The model scripts it: \<open>answers op k\<close> is
  what the callback returns to the \<open>k\<close>-th call (from 0) of operation \<open>op\<close>, and
  \<open>calls\<close> logs every call made, oldest first, with its pointer and its number, or
  with \<open>None\<close> where the source does not say what is passed. The callback does not
  write to the memory.
\<close>

datatype sysop =
  COZYFS_SYSOP_MALLOC | COZYFS_SYSOP_FREE | COZYFS_SYSOP_WAIT
| COZYFS_SYSOP_WAKE | COZYFS_SYSOP_SYNC | COZYFS_SYSOP_TIME

record host =
  answers :: "sysop \<Rightarrow> nat \<Rightarrow> u64"
  calls :: "(sysop \<times> (addr \<times> int) option) list"

definition callback :: "sysop \<Rightarrow> (addr \<times> int) option \<Rightarrow> host \<Rightarrow> u64 \<times> host" where
  "callback sop args hst =
     (answers hst sop (length (filter (\<lambda>c. fst c = sop) (calls hst))),
      hst\<lparr>calls := calls hst @ [(sop, args)]\<rparr>)"

text \<open>What a library call works on: the session, the memory and the host.\<close>

record world =
  fs :: CozyFS
  heap :: heap
  host :: host

definition COZYFS_SYSRES_OK :: int where "COZYFS_SYSRES_OK = 0"

text \<open>
  Modelled from the spec: the header of this version is not among the sources
  (\<^verbatim>\<open>cozyfs.h\<close> stops at \<^verbatim>\<open>COZYFS_ESYSTIME\<close>). Section 7 of the spec lists
  ESYSWAIT and ESYSWAKE after ESYSTIME, so they continue the enumeration;
  \<^verbatim>\<open>COZYFS_ENAMETOOLONG\<close>, which only \<^verbatim>\<open>create_user\<close> returns, takes the next
  value. No theorem depends on these three numbers.
\<close>

definition COZYFS_ESYSWAIT :: int where "COZYFS_ESYSWAIT = 14"
definition COZYFS_ESYSWAKE :: int where "COZYFS_ESYSWAKE = 15"
definition COZYFS_ENAMETOOLONG :: int where "COZYFS_ENAMETOOLONG = 16"

subsection \<open>User callback wrappers\<close>

definition sys_malloc :: "int \<Rightarrow> world \<Rightarrow> addr \<times> world" where
  "sys_malloc len w =
     (case callback COZYFS_SYSOP_MALLOC (Some (NULL, len)) (host w) of
        (r, hst) \<Rightarrow> (unat r, w\<lparr>host := hst\<rparr>))"

definition sys_free :: "addr \<Rightarrow> int \<Rightarrow> world \<Rightarrow> int \<times> world" where
  "sys_free ptr len w =
     (case callback COZYFS_SYSOP_FREE (Some (ptr, len)) (host w) of
        (r, hst) \<Rightarrow> (if r = 0 then - COZYFS_ESYSFREE else COZYFS_OK, w\<lparr>host := hst\<rparr>))"

text \<open>
  The arguments of the WAKE call are left open in the source
  (\<^verbatim>\<open>fs->callback(COZYFS_SYSOP_WAKE, fs->userptr, ???)\<close>), so the call is logged
  without arguments and \<^verbatim>\<open>word\<close> is not used. The result is read into an
  \<^verbatim>\<open>int\<close>.
\<close>

definition sys_wake :: "addr \<Rightarrow> world \<Rightarrow> int \<times> world" where
  "sys_wake word w =
     (case callback COZYFS_SYSOP_WAKE None (host w) of
        (r, hst) \<Rightarrow>
          (if sint (ucast r :: 32 word) \<noteq> COZYFS_SYSRES_OK then - COZYFS_ESYSWAKE
           else COZYFS_OK,
           w\<lparr>host := hst\<rparr>))"

definition sys_time :: "world \<Rightarrow> u64 \<times> world" where
  "sys_time w =
     (case callback COZYFS_SYSOP_TIME (Some (NULL, 0)) (host w) of
        (r, hst) \<Rightarrow> (r, w\<lparr>host := hst\<rparr>))"

subsection \<open>Relative pointer management\<close>

definition get_root :: "world \<Rightarrow> addr" where
  "get_root w =
     (let root = mem (fs w)
      in if sint (load_u32 (heap w) (root + RPage_backup)) = BACKUP_HALF_INACTIVE
         then nat (int root + 4096 * sint (load_u32 (heap w) (root + RPage_tot_pages)))
         else root)"

definition off2ptr :: "CozyFS \<Rightarrow> Offset \<Rightarrow> addr" where
  "off2ptr f off =
     (if off = INVALID_OFFSET then NULL
      else
        let byte_off = off AND (4096 - 1);
            page_off = off - byte_off;
            i = scan_while (\<lambda>i. patch_offs f ! i \<noteq> page_off) (patch_count f) 0
        in if i < patch_count f then patch_ptrs f ! i + unat byte_off
           else mem f + unat off)"

definition ptr2off :: "CozyFS \<Rightarrow> addr \<Rightarrow> Offset" where
  "ptr2off f ptr =
     (if ptr = NULL then INVALID_OFFSET
      else
        let i = scan_while
                  (\<lambda>i. \<not> (ptr \<ge> patch_ptrs f ! i \<and> ptr < patch_ptrs f ! i + 4096))
                  (patch_count f) 0
        in if i < patch_count f then patch_offs f ! i + of_nat (ptr - patch_ptrs f ! i)
           else word_of_int (int ptr - int (mem f)))"

text \<open>
  \<^verbatim>\<open>writable_addr\<close>. \<^verbatim>\<open>COUNT(fs->patch_offs)\<close> is \<^verbatim>\<open>COZYFS_MAX_PATCHES\<close>;
  \<^verbatim>\<open>(ptr - fs->mem) & (4096 - 1)\<close> is the pointer difference modulo 4096.
\<close>

definition writable_addr :: "addr \<Rightarrow> world \<Rightarrow> addr \<times> world" where
  "writable_addr ptr w =
     (if transaction (fs w) \<noteq> TRANSACTION_OFF then
        let i = scan_while
                  (\<lambda>i. patch_ptrs (fs w) ! i > ptr \<or> patch_ptrs (fs w) ! i + 4096 \<le> ptr)
                  (patch_count (fs w)) 0
        in if i < patch_count (fs w) then (ptr, w)
           else if patch_count (fs w) = COZYFS_MAX_PATCHES then (NULL, w)
           else
             case sys_malloc 4096 w of
               (page_copy, w1) \<Rightarrow>
                 if page_copy = NULL then (NULL, w1)
                 else
                   let byte_off = nat ((int ptr - int (mem (fs w1))) mod 4096);
                       page_ptr = ptr - byte_off;
                       h = my_memcpy (heap w1) page_copy page_ptr 4096;
                       f = fs w1;
                       f' = f\<lparr>patch_ptrs := (patch_ptrs f)[patch_count f := page_copy],
                               patch_offs := (patch_offs f)[patch_count f := of_nat byte_off],
                               patch_count := patch_count f + 1\<rparr>
                   in (page_copy + byte_off, w1\<lparr>fs := f', heap := h\<rparr>)
      else (ptr, w))"

subsection \<open>File system lock\<close>

text \<open>
  The three \<^verbatim>\<open>cmpxchg_*\<close> functions differ in their memory order only; for one
  attacher at a time a compare-exchange is this.
\<close>

definition cmpxchg :: "addr \<Rightarrow> u64 \<Rightarrow> u64 \<Rightarrow> heap \<Rightarrow> bool \<times> heap" where
  "cmpxchg word new_word old_word h =
     (if load_u64 h word = old_word then (True, store_u64 h word new_word) else (False, h))"

text \<open>
  \<^verbatim>\<open>unlock\<close>. The source has \<^verbatim>\<open>u64 *word = root->lock;\<close> and passes
  \<^verbatim>\<open>root->lock\<close> to \<^verbatim>\<open>cmpxchg_release\<close>: the pointer is the value of the lock
  field, converted to an address, not the address of the field. When that value is 0 the
  pointer is \<^verbatim>\<open>NULL\<close> and the compare-exchange through it traps: the result is
  \<open>None\<close>, as for every call that traps.
\<close>

definition unlock :: "world \<Rightarrow> (int \<times> world) option" where
  "unlock w =
     (let root = mem (fs w);
          word = unat (load_u64 (heap w) (root + RPage_lock))
      in if word = NULL then None
         else
           case cmpxchg word 0 (ticket (fs w)) (heap w) of
             (ok, h) \<Rightarrow>
               if \<not> ok then Some (- COZYFS_ETIMEDOUT, w)
               else Some (sys_wake word (w\<lparr>heap := h\<rparr>)))"

text \<open>\<^verbatim>\<open>refresh_lock\<close>, with the same \<^verbatim>\<open>u64 *word = root->lock;\<close>.\<close>

definition refresh_lock :: "int \<Rightarrow> world \<Rightarrow> (int \<times> world) option" where
  "refresh_lock postpone_sec w =
     (case sys_time w of
        (now, w1) \<Rightarrow>
          if now = 0 then Some (- COZYFS_ESYSTIME, w1)
          else
            let root = mem (fs w1);
                word = unat (load_u64 (heap w1) (root + RPage_lock));
                new_word = now + word_of_int (postpone_sec * 1000)
            in if word = NULL then None
               else
                 case cmpxchg word new_word (ticket (fs w1)) (heap w1) of
                   (ok, h) \<Rightarrow>
                     if \<not> ok then Some (- COZYFS_ETIMEDOUT, w1)
                     else Some (0, w1\<lparr>heap := h, fs := (fs w1)\<lparr>ticket := new_word\<rparr>\<rparr>))"

subsection \<open>Backup\<close>

text \<open>
  \<^verbatim>\<open>OFFSETOF(TYPE, MEMBER)\<close> is defined as \<^verbatim>\<open>(((TYPE*) 0)->MEMBER)\<close>: it is not
  the offset of the member but a read of the member of an object at the null pointer,
  that is of the address that is the offset. The read traps, so it has no result.
\<close>

definition OFFSETOF :: "nat \<Rightarrow> int option" where
  "OFFSETOF member_off = None"

text \<open>
  \<^verbatim>\<open>restore_backup\<close>. \<^verbatim>\<open>atomic_load\<close> reads a \<^verbatim>\<open>u64\<close> at the address of the
  \<^verbatim>\<open>int\<close> flag and the result is stored in an \<^verbatim>\<open>int\<close>. \<^verbatim>\<open>root + root->tot_pages\<close>
  advances by whole pages. \<^verbatim>\<open>skip\<close> is an \<^verbatim>\<open>int\<close>, what \<^verbatim>\<open>OFFSETOF\<close> gives
  plus the 4 bytes of the flag; the length \<^verbatim>\<open>root->tot_pages * 4096 - skip\<close> is an
  \<^verbatim>\<open>int\<close> converted to \<^verbatim>\<open>unsigned long\<close>.
\<close>

definition restore_backup :: "world \<Rightarrow> (int \<times> world) option" where
  "restore_backup w =
     (let root = mem (fs w);
          backup = sint (ucast (load_u64 (heap w) (root + RPage_backup)) :: 32 word)
      in if backup = BACKUP_NO then Some (0, w)
         else
           let tot_pages = sint (load_u32 (heap w) (root + RPage_tot_pages));
               active = root;
               inactive = nat (int root + 4096 * tot_pages)
           in case OFFSETOF RPage_backup of
                None \<Rightarrow> None
              | Some v \<Rightarrow>
                  let skip = sint (word_of_int (v + 4) :: 32 word);
                      len = unat (word_of_int (tot_pages * 4096 - skip) :: 64 word)
                  in Some (1, w\<lparr>heap := my_memcpy (heap w) (nat (int active + skip))
                                              (nat (int inactive + skip)) len\<rparr>))"

subsection \<open>Transactions\<close>

text \<open>The loop \<^verbatim>\<open>for (i = 0; i < fs->patch_count; i++) sys_free(fs, fs->patch_ptrs[i], 4096);\<close>\<close>

function free_patches :: "nat \<Rightarrow> world \<Rightarrow> world" where
  "free_patches i w =
     (if i < patch_count (fs w)
      then free_patches (i + 1) (snd (sys_free (patch_ptrs (fs w) ! i) 4096 w))
      else w)"
  by pat_completeness auto

lemma sys_free_fs: "fs (snd (sys_free p n w)) = fs w"
  by (simp add: sys_free_def split: prod.splits)

termination free_patches
  by (relation "measure (\<lambda>(i, w). patch_count (fs w) - i)") (auto simp add: sys_free_fs)

declare free_patches.simps [simp del]

definition cozyfs_transaction_rollback :: "world \<Rightarrow> (int \<times> world) option" where
  "cozyfs_transaction_rollback w =
     (if transaction (fs w) = TRANSACTION_OFF then Some (- COZYFS_EINVAL, w)
      else
        let w1 = free_patches 0 w;
            w2 = w1\<lparr>fs := (fs w1)\<lparr>patch_count := 0\<rparr>\<rparr>
        in case unlock w2 of
             None \<Rightarrow> None
           | Some (code, w3) \<Rightarrow>
               Some (COZYFS_OK, w3\<lparr>fs := (fs w3)\<lparr>transaction := TRANSACTION_OFF\<rparr>\<rparr>))"

section \<open>Directory and file management\<close>

text \<open>
  A result of type \<open>option\<close> is \<open>None\<close> when the C call gives no result: it
  never returns (an endless page chain, a name with no zero byte after it), it traps
  (in an \<^verbatim>\<open>ASSERT\<close>, or on a read through \<^verbatim>\<open>NULL\<close>), or what it returns is
  undefined.

  \<^verbatim>\<open>find_unused_entity\<close> is of the last kind: its body is a loop over the patches
  with nothing in it and there is no \<^verbatim>\<open>return\<close>.
\<close>

definition find_unused_entity :: "world \<Rightarrow> (addr \<times> world) option" where
  "find_unused_entity w = None"

definition free_entity :: "addr \<Rightarrow> world \<Rightarrow> int \<times> world" where
  "free_entity entity w =
     (case writable_addr entity w of
        (writable_entity, w1) \<Rightarrow>
          if writable_entity = NULL then (- COZYFS_ENOMEM, w1)
          else
            let refs = load_u32 (heap w1) (writable_entity + Entity_refs) - 1;
                w2 = w1\<lparr>heap := store_u32 (heap w1) (writable_entity + Entity_refs) refs\<rparr>
            in if refs > 0 then (COZYFS_OK, w2) else (COZYFS_OK, w2))"

text \<open>
  \<^verbatim>\<open>find_entity\<close>: the two nested loops, as one function of the page and the index
  in it. The result \<^verbatim>\<open>NULL\<close> is "not found".
\<close>

partial_function (option) find_entity_loop ::
  "CozyFS \<Rightarrow> heap \<Rightarrow> string \<Rightarrow> addr \<Rightarrow> nat \<Rightarrow> addr option" where
  "find_entity_loop f h name dpage i =
     (if dpage = NULL then Some NULL
      else if i < COUNT_links \<and> load_u32 h (link_off dpage i) \<noteq> INVALID_OFFSET then
        (case my_strlen h (link_name dpage i) of
           None \<Rightarrow> None
         | Some link_name_len \<Rightarrow>
             if length name = link_name_len \<and> memeq name h (link_name dpage i) (length name)
             then Some (off2ptr f (load_u32 h (link_off dpage i)))
             else find_entity_loop f h name dpage (i + 1))
      else find_entity_loop f h name (off2ptr f (load_u32 h (dpage + DPage_next))) 0)"

declare find_entity_loop.simps [code]

definition find_entity :: "CozyFS \<Rightarrow> heap \<Rightarrow> addr \<Rightarrow> string \<Rightarrow> addr option" where
  "find_entity f h parent name =
     find_entity_loop f h name (off2ptr f (load_u32 h (parent + Entity_head))) 0"

text \<open>
  \<^verbatim>\<open>create_entity\<close>. Its last two statements, the \<^verbatim>\<open>my_memset\<close> and the
  \<^verbatim>\<open>my_memcpy\<close> of the name into \<^verbatim>\<open>writable_tail->links[i].name\<close>, are
  \<open>set_link_name\<close>; the six assignments that link and initialise a new entity are
  \<open>link_new_entity\<close>. The two \<^verbatim>\<open>if\<close> statements whose bodies are only a comment
  (\<^verbatim>\<open>if (entity) { /* TODO: Entity exists already */ }\<close> and the one for a full tail)
  do nothing, and neither does the \<^verbatim>\<open>flags\<close> argument. When the parent has no
  page, \<^verbatim>\<open>tail\<close> is \<^verbatim>\<open>NULL\<close> and the loop over the links reads through it.
\<close>

definition set_link_name :: "heap \<Rightarrow> addr \<Rightarrow> nat \<Rightarrow> string \<Rightarrow> heap" where
  "set_link_name h writable_tail i name =
     store_string (my_memset h (link_name writable_tail i) 0 MAX_NAME)
       (link_name writable_tail i) name (length name)"

definition link_new_entity :: "CozyFS \<Rightarrow> heap \<Rightarrow> addr \<Rightarrow> nat \<Rightarrow> addr \<Rightarrow> heap" where
  "link_new_entity f h writable_tail i ent =
     (let h1 = store_u32 h (link_off writable_tail i) (ptr2off f ent);
          h2 = store_u32 h1 (ent + Entity_refs) 1;
          h3 = store_u32 h2 (ent + Entity_head) INVALID_OFFSET;
          h4 = store_u32 h3 (ent + Entity_tail) INVALID_OFFSET;
          h5 = store_u16 h4 (ent + Entity_head_start) 0
      in store_u16 h5 (ent + Entity_tail_end) 0)"

definition create_entity ::
  "addr \<Rightarrow> addr \<Rightarrow> string \<Rightarrow> u32 \<Rightarrow> world \<Rightarrow> (int \<times> world) option" where
  "create_entity parent target name flags w =
     (if length name > MAX_NAME then Some (- COZYFS_EINVAL, w)
      else
        case find_entity (fs w) (heap w) parent name of
          None \<Rightarrow> None
        | Some entity \<Rightarrow>
            let tail = off2ptr (fs w) (load_u32 (heap w) (parent + Entity_tail));
                i = scan_while (\<lambda>i. load_u32 (heap w) (link_off tail i) \<noteq> INVALID_OFFSET)
                      COUNT_links 0
            in if tail = NULL then None
               else case writable_addr tail w of
                 (writable_tail, w1) \<Rightarrow>
                   if writable_tail = NULL then Some (- COZYFS_ENOMEM, w1)
                   else if target \<noteq> NULL then
                     (case writable_addr target w1 of
                        (writable_target, w2) \<Rightarrow>
                          if writable_target = NULL then Some (- COZYFS_ENOMEM, w2)
                          else
                            let h1 = store_u32 (heap w2) (writable_target + Entity_refs)
                                       (load_u32 (heap w2) (writable_target + Entity_refs) + 1);
                                h2 = store_u32 h1 (link_off writable_tail i)
                                       (ptr2off (fs w2) target)
                            in Some (COZYFS_OK,
                                 w2\<lparr>heap := set_link_name h2 writable_tail i name\<rparr>))
                   else
                     let j = scan_while
                               (\<lambda>j. load_u32 (heap w1) (dpage_ent writable_tail j + Entity_refs) > 0)
                               COUNT_ents 0
                     in if j = COUNT_ents then
                          (case find_unused_entity w1 of
                             None \<Rightarrow> None
                           | Some (ent, w2) \<Rightarrow>
                               if ent = NULL then Some (- COZYFS_ENOMEM, w2)
                               else Some (COZYFS_OK,
                                      w2\<lparr>heap := set_link_name
                                        (link_new_entity (fs w2) (heap w2) writable_tail i ent)
                                        writable_tail i name\<rparr>))
                        else
                          Some (COZYFS_OK,
                            w1\<lparr>heap := set_link_name
                              (link_new_entity (fs w1) (heap w1) writable_tail i
                                 (dpage_ent writable_tail j))
                              writable_tail i name\<rparr>))"

text \<open>
  \<^verbatim>\<open>remove_entity\<close>. Its search loop is the one of \<^verbatim>\<open>find_entity\<close>,
  \<^verbatim>\<open>return off2ptr(fs, dpage->links[i].off);\<close> included: \<open>Inl p\<close> is that return
  with the pointer \<open>p\<close>, \<open>Inr (dpage, i)\<close> is the state in which the loop is left.
  Returned from a function of type \<^verbatim>\<open>int\<close>, the pointer is cut to its low 32 bits.
  (\<^verbatim>\<open>i\<close> is not initialised when the loop body never runs; the model starts it at 0.)
\<close>

partial_function (option) remove_entity_loop ::
  "CozyFS \<Rightarrow> heap \<Rightarrow> string \<Rightarrow> addr \<Rightarrow> nat \<Rightarrow> (addr + addr \<times> nat) option" where
  "remove_entity_loop f h name dpage i =
     (if i < COUNT_links \<and> load_u32 h (link_off dpage i) \<noteq> INVALID_OFFSET then
        (case my_strlen h (link_name dpage i) of
           None \<Rightarrow> None
         | Some link_name_len \<Rightarrow>
             if length name = link_name_len \<and> memeq name h (link_name dpage i) (length name)
             then Some (Inl (off2ptr f (load_u32 h (link_off dpage i))))
             else remove_entity_loop f h name dpage (i + 1))
      else
        let next = off2ptr f (load_u32 h (dpage + DPage_next))
        in if next = NULL then Some (Inr (next, i))
           else remove_entity_loop f h name next 0)"

declare remove_entity_loop.simps [code]

definition ptr_to_int :: "addr \<Rightarrow> int" where
  "ptr_to_int p = sint (word_of_nat p :: 32 word)"

definition remove_entity ::
  "addr \<Rightarrow> string \<Rightarrow> u32 \<Rightarrow> world \<Rightarrow> (int \<times> world) option" where
  "remove_entity parent name flags w =
     (let dpage0 = off2ptr (fs w) (load_u32 (heap w) (parent + Entity_head))
      in case (if dpage0 = NULL then Some (Inr (dpage0, 0))
               else remove_entity_loop (fs w) (heap w) name dpage0 0) of
           None \<Rightarrow> None
         | Some (Inl p) \<Rightarrow> Some (ptr_to_int p, w)
         | Some (Inr (dpage, i)) \<Rightarrow>
             if dpage = NULL then Some (- COZYFS_ENOENT, w)
             else
               let link = link_off dpage i;
                   entity = off2ptr (fs w) (load_u32 (heap w) link)
               in case writable_addr parent w of
                    (writable_parent, w1) \<Rightarrow>
                      if writable_parent = NULL then Some (COZYFS_ENOMEM, w1)
                      else
                        case writable_addr dpage w1 of
                          (writable_dpage, w2) \<Rightarrow>
                            if writable_dpage = NULL then Some (- COZYFS_ENOMEM, w2)
                            else
                              case free_entity entity w2 of
                                (code, w3) \<Rightarrow>
                                  if code \<noteq> COZYFS_OK then Some (code, w3)
                                  else
                                    let tail = off2ptr (fs w3)
                                                 (load_u32 (heap w3) (parent + Entity_tail));
                                        tail_end = load_u16 (heap w3)
                                                     (writable_parent + Entity_tail_end) - 1;
                                        h1 = store_u16 (heap w3)
                                               (writable_parent + Entity_tail_end) tail_end;
                                        h2 = my_memcpy h1 (link_off writable_dpage i)
                                               (link_off tail (unat tail_end)) sizeof_Link
                                    in Some (COZYFS_OK, w3\<lparr>heap := h2\<rparr>))"

section \<open>User management\<close>

definition allocate_page :: "world \<Rightarrow> addr \<times> world" where
  "allocate_page w =
     (let root = get_root w
      in if load_u32 (heap w) (root + RPage_free_pages) = INVALID_OFFSET \<and>
            load_u32 (heap w) (root + RPage_num_pages) = load_u32 (heap w) (root + RPage_tot_pages)
         then (NULL, w)
         else
           case writable_addr root w of
             (writable_root, w1) \<Rightarrow>
               if writable_root = NULL then (NULL, w1)
               else if load_u32 (heap w1) (root + RPage_free_pages) = INVALID_OFFSET then
                 let num_pages = load_u32 (heap w1) (writable_root + RPage_num_pages);
                     xpage = nat (int (get_root w1) + 4096 * sint num_pages)
                 in (xpage,
                     w1\<lparr>heap := store_u32 (heap w1) (writable_root + RPage_num_pages)
                                   (num_pages + 1)\<rparr>)
               else
                 case writable_addr
                        (off2ptr (fs w1) (load_u32 (heap w1) (writable_root + RPage_free_pages)))
                        w1 of
                   (xpage, w2) \<Rightarrow>
                     (xpage,
                      w2\<lparr>heap := store_u32 (heap w2) (writable_root + RPage_free_pages)
                                    (load_u32 (heap w2) xpage)\<rparr>))"

text \<open>
  \<^verbatim>\<open>create_user\<close>. The name is the caller's C string, so \<^verbatim>\<open>my_strlen(name)\<close> is
  its length. \<open>Inl\<close> is an early \<^verbatim>\<open>return\<close> from the first \<^verbatim>\<open>if\<close>, \<open>Inr\<close> the
  page \<^verbatim>\<open>upage\<close> it leaves.
\<close>

definition create_user :: "string \<Rightarrow> world \<Rightarrow> int \<times> world" where
  "create_user name w =
     (let root = get_root w;
          name_len = length name
      in if name_len \<ge> MAX_USER_NAME then (- COZYFS_ENAMETOOLONG, w)
         else
           case (if load_u32 (heap w) (root + RPage_tail_upage_used) = of_nat COUNT_users then
                   (case writable_addr root w of
                      (writable_root, w1) \<Rightarrow>
                        if writable_root = NULL then Inl (- COZYFS_ENOMEM, w1)
                        else
                          case allocate_page w1 of
                            (upage, w2) \<Rightarrow>
                              if upage = NULL then Inl (- COZYFS_ENOMEM, w2)
                              else
                                let h1 = store_u32 (heap w2) (upage + UPage_prev)
                                           (load_u32 (heap w2) (writable_root + RPage_tail_upage));
                                    h2 = store_u32 h1 (upage + UPage_next) INVALID_OFFSET;
                                    h3 = store_u32 h2 (writable_root + RPage_tail_upage)
                                           (ptr2off (fs w2) upage);
                                    h4 = store_u32 h3 (writable_root + RPage_tail_upage_used) 0
                                in Inr (upage, w2\<lparr>heap := h4\<rparr>))
                 else
                   Inr (off2ptr (fs w) (load_u32 (heap w) (root + RPage_tail_upage)), w)) of
             Inl r \<Rightarrow> r
           | Inr (upage, w3) \<Rightarrow>
               case writable_addr root w3 of
                 (writable_root, w4) \<Rightarrow>
                   if writable_root = NULL then (- COZYFS_ENOMEM, w4)
                   else
                     let used = load_u32 (heap w4) (writable_root + RPage_tail_upage_used);
                         user = upage_user upage (unat used);
                         h1 = store_u32 (heap w4) (writable_root + RPage_tail_upage_used) (used + 1);
                         account = load_u32 h1 (writable_root + RPage_next_account_id);
                         h2 = store_u16 h1 user (ucast account);
                         h3 = store_u32 h2 (writable_root + RPage_next_account_id) (account + 1);
                         h4 = my_memset h3 (user + User_name) 0 MAX_USER_NAME;
                         h5 = store_string h4 (user + User_name) name name_len
                     in (0, w4\<lparr>heap := h5\<rparr>))"

definition mkusr :: "string \<Rightarrow> world \<Rightarrow> int \<times> world" where
  "mkusr name w = create_user name w"

section \<open>File system functions\<close>

text \<open>
  \<^verbatim>\<open>pack_fd\<close>: the index is a difference of \<^verbatim>\<open>Handle\<close> pointers (bytes over 12,
  towards zero), the descriptor a 32-bit \<^verbatim>\<open>int\<close>; \<^verbatim>\<open>ASSERT(fd >= 0)\<close> traps.
\<close>

definition pack_fd :: "CozyFS \<Rightarrow> heap \<Rightarrow> addr \<Rightarrow> int option" where
  "pack_fd f h handle =
     (let root = mem f;
          d = int handle - int (root + RPage_handles);
          i = sgn d * (\<bar>d\<bar> div 12);
          gen = load_u16 h (handle + Handle_gen);
          fd = sint (push_bit 16 (ucast gen :: 32 word) OR word_of_int i)
      in if fd \<ge> 0 then Some fd else None)"

definition unpack_fd :: "CozyFS \<Rightarrow> heap \<Rightarrow> int \<Rightarrow> addr" where
  "unpack_fd f h fd =
     (let gen = drop_bit 16 (word_of_int fd :: 32 word);
          idx = (word_of_int fd :: 32 word) AND 0xFFFF;
          root = mem f
      in if idx \<ge> of_nat COUNT_handles then NULL
         else
           let handle = root_handle root (unat idx)
           in if ucast (load_u16 h (handle + Handle_gen)) \<noteq> gen then NULL else handle)"

text \<open>
  The loop \<^verbatim>\<open>for (...) { entity = find_entity(fs, entity, comps[i]); if (entity ==
  NULL) return -COZYFS_ENOENT; }\<close> over the components it is given; the result
  \<^verbatim>\<open>NULL\<close> is that return.
\<close>

fun resolve :: "CozyFS \<Rightarrow> heap \<Rightarrow> string list \<Rightarrow> addr \<Rightarrow> addr option" where
  "resolve f h [] entity = Some entity"
| "resolve f h (c # cs) entity =
     (case find_entity f h entity c of
        None \<Rightarrow> None
      | Some e \<Rightarrow> if e = NULL then Some NULL else resolve f h cs e)"

text \<open>
  \<^verbatim>\<open>mkdir_\<close> and \<^verbatim>\<open>open_\<close>, here \<open>fs_mkdir\<close> and \<open>fs_open\<close> (a name
  cannot end in an underscore). The path is the caller's C string; the array
  \<^verbatim>\<open>pathcomps[32]\<close> starts with empty cells. Both loops run over
  \<^verbatim>\<open>i < pathnum-1\<close>: the components but the last.
\<close>

definition fs_mkdir :: "string \<Rightarrow> world \<Rightarrow> (int \<times> world) option" where
  "fs_mkdir path w =
     (case parse_path path (replicate 32 []) 32 of
        None \<Rightarrow> None
      | Some (pathnum, pathcomps) \<Rightarrow>
          if pathnum < 0 then Some (pathnum, w)
          else if pathnum = 0 then Some (- COZYFS_EPERM, w)
          else
            (case resolve (fs w) (heap w) (take (nat (pathnum - 1)) pathcomps)
                    (mem (fs w) + RPage_root) of
               None \<Rightarrow> None
             | Some parent \<Rightarrow>
                 if parent = NULL then Some (- COZYFS_ENOENT, w)
                 else create_entity parent NULL (pathcomps ! nat (pathnum - 1)) ENTITY_DIR w))"

definition fs_open :: "string \<Rightarrow> world \<Rightarrow> (int \<times> world) option" where
  "fs_open path w =
     (case parse_path path (replicate 32 []) 32 of
        None \<Rightarrow> None
      | Some (pathnum, pathcomps) \<Rightarrow>
          if pathnum < 0 then Some (pathnum, w)
          else
            (let root = mem (fs w)
             in (case resolve (fs w) (heap w) (take (nat (pathnum - 1)) pathcomps)
                        (root + RPage_root) of
                   None \<Rightarrow> None
                 | Some entity \<Rightarrow>
                     if entity = NULL then Some (- COZYFS_ENOENT, w)
                     else if load_u32 (heap w) (entity + Entity_flags) AND ENTITY_DIR \<noteq> 0
                       then Some (- COZYFS_EISDIR, w)
                     else
                       (let i = scan_while (\<lambda>i. heap w (root_handle root i + Handle_used) \<noteq> 0)
                                  COUNT_handles 0
                        in if i = COUNT_handles \<or> i \<ge> 2 ^ 16 then Some (- COZYFS_ENFILE, w)
                           else
                             (case writable_addr (root_handle root i) w of
                                (handle, w1) \<Rightarrow>
                                  if handle = NULL then Some (- COZYFS_ENOMEM, w1)
                                  else
                                    (let h1 = store_u32 (heap w1) (handle + Handle_entity)
                                                (ptr2off (fs w1) entity);
                                         h2 = h1(handle + Handle_used := 1)
                                     in (case pack_fd (fs w1) h2 handle of
                                           None \<Rightarrow> None
                                         | Some fd \<Rightarrow> Some (fd, w1\<lparr>heap := h2\<rparr>))))))))"

text \<open>
  \<^verbatim>\<open>close_\<close>, here \<open>fs_close\<close>. In \<^verbatim>\<open>writable_handle->gen == (u64) -1\<close> the 16-bit generation is
  widened to 64 bits before it is compared with the 64-bit all-ones.
\<close>

definition fs_close :: "int \<Rightarrow> world \<Rightarrow> int \<times> world" where
  "fs_close fd w =
     (let handle = unpack_fd (fs w) (heap w) fd
      in if handle = NULL then (- COZYFS_EBADF, w)
         else
           let entity = off2ptr (fs w) (load_u32 (heap w) (handle + Handle_entity))
           in if load_u32 (heap w) (entity + Entity_flags) AND ENTITY_FILE = 0
              then (- COZYFS_EINVAL, w)
              else
                case writable_addr handle w of
                  (writable_handle, w1) \<Rightarrow>
                    if writable_handle = NULL then (- COZYFS_ENOMEM, w1)
                    else
                      case free_entity entity w1 of
                        (code, w2) \<Rightarrow>
                          if code \<noteq> COZYFS_OK then (code, w2)
                          else
                            let h1 = (heap w2)(writable_handle + Handle_used := 0);
                                gen = load_u16 h1 (writable_handle + Handle_gen) + 1;
                                h2 = store_u16 h1 (writable_handle + Handle_gen) gen;
                                h3 = (if gen = 0 \<or> (ucast gen :: u64) = 0xFFFFFFFFFFFFFFFF
                                      then store_u16 h2 (writable_handle + Handle_gen) 1
                                      else h2)
                            in (COZYFS_OK, w2\<lparr>heap := h3\<rparr>))"

section \<open>The path parser in the words of the specification\<close>

text \<open>
  What section 4.4 of the specification says, written without reference to the loop of
  \<^verbatim>\<open>parse_path\<close>: strip one optional leading \<^verbatim>\<open>'/'\<close>, split on \<^verbatim>\<open>'/'\<close>, and
  walk the components from left to right with a stack. A piece that is not followed by
  a separator (the last one) is not between two separators, so an empty last piece is
  no component; every other empty piece is an empty component.
\<close>

fun split_on :: "char \<Rightarrow> string \<Rightarrow> string list" where
  "split_on c [] = [[]]"
| "split_on c (x # xs) =
     (if x = c then [] # split_on c xs
      else (x # hd (split_on c xs)) # tl (split_on c xs))"

fun walk_comps :: "nat \<Rightarrow> string list \<Rightarrow> string list \<Rightarrow> int + string list" where
  "walk_comps mx stack [] = Inr stack"
| "walk_comps mx stack (c # cs) =
     (if c = [] then Inl COZYFS_EINVAL
      else if c = ''..'' then
        (if stack = [] then Inl COZYFS_EINVAL else walk_comps mx (butlast stack) cs)
      else if c = ''.'' then walk_comps mx stack cs
      else if length stack = mx then Inl COZYFS_ENOMEM
      else walk_comps mx (stack @ [c]) cs)"

definition inner_comps :: "string \<Rightarrow> string list" where
  "inner_comps q =
     (let pieces = split_on CHR ''/'' q
      in if last pieces = [] then butlast pieces else pieces)"

definition parse_path_spec :: "nat \<Rightarrow> string \<Rightarrow> int + string list" where
  "parse_path_spec mx p =
     walk_comps mx [] (inner_comps (if p \<noteq> [] \<and> hd p = CHR ''/'' then tl p else p))"

text \<open>
  When the code's result agrees with a specified one: the same error, negated, or the
  number of components with the components in the first cells of the array.
\<close>

definition agrees :: "int + string list \<Rightarrow> (int \<times> string list) option \<Rightarrow> bool" where
  "agrees r out =
     (case out of
        None \<Rightarrow> False
      | Some (n, comps') \<Rightarrow>
          (case r of
             Inl e \<Rightarrow> n = - e
           | Inr cs \<Rightarrow> n = int (length cs) \<and> take (length cs) comps' = cs))"

section \<open>Example states\<close>

text \<open>
  Concrete states on which the theorems below are run. The buffer is attached at
  address 4096; \<open>attached\<close> is the session as \<^verbatim>\<open>cozyfs_attach\<close> leaves it (the two
  patch arrays, which C leaves uninitialised, hold zeros); the quiet host answers 0 to
  every call.
\<close>

definition quiet_host :: host where
  "quiet_host = \<lparr>answers = (\<lambda>sop k. 0), calls = []\<rparr>"

definition attached :: "addr \<Rightarrow> CozyFS" where
  "attached base =
     \<lparr>mem = base, ticket = 0, transaction = TRANSACTION_OFF, patch_count = 0,
      patch_offs = replicate 128 0, patch_ptrs = replicate 128 0\<rparr>"



text \<open>
  The session holds ticket 5000 and the lock word, at address 4104, holds it too; the
  rest of the memory, the 8 bytes at address 5000 among it, is zero.
\<close>

definition ex_held_world :: world where
  "ex_held_world =
     \<lparr>fs = (attached 4096)\<lparr>ticket := 5000\<rparr>,
      heap = store_u64 (\<lambda>a. 0) 4104 5000, host = quiet_host\<rparr>"

text \<open>
  Two halves of one page each. With backup on: flag 1, \<^verbatim>\<open>tot_pages\<close> 1,
  \<^verbatim>\<open>last_backup_time\<close> 7 in the half at the base, zeros in the other half. With backup
  off: the flag as \<^verbatim>\<open>cozyfs_init\<close> stores \<^verbatim>\<open>BACKUP_NO\<close>.
\<close>

definition ex_backup_world :: world where
  "ex_backup_world =
     \<lparr>fs = attached 4096,
      heap = store_u64 (store_u32 (store_u64 (\<lambda>a. 0) 4112 1) 4156 1) 4120 7,
      host = quiet_host\<rparr>"

definition ex_nobackup_world :: world where
  "ex_nobackup_world =
     \<lparr>fs = attached 4096,
      heap = store_u32 (store_u64 (\<lambda>a. 0) 4112 0xFFFFFFFFFFFFFFFF) 4156 1,
      host = quiet_host\<rparr>"

text \<open>
  A small file system, backup off, 16 pages. The root directory (entity at byte 68 of
  the root page) has one directory page, page 1 at offset 4096; its first link is named
  \<^verbatim>\<open>a\<close> and points to the first entity of that page (offset 7552), a regular file
  with two references: the link, and handle slot 0, which is in use with generation
  \<^verbatim>\<open>0xFFFE\<close>. Every other link of the page is unused. Handle slot 1 is unused, with
  generation 1. The user table's tail page is page 2 (offset 8192) with no user in it,
  and the next account id is 1.
\<close>

definition ex_fs_heap :: heap where
  "ex_fs_heap =
     (let root = 4096;
          dpage = 8192;
          file = dpage_ent dpage 0;
          h = my_memset (\<lambda>a. 0) (link_off dpage 0) 0xFF (26 * 132);
          h = store_u64 h (root + RPage_backup) 0xFFFFFFFFFFFFFFFF;
          h = store_u32 h (root + RPage_next_account_id) 1;
          h = store_u32 h (root + RPage_tail_upage) 8192;
          h = store_u32 h (root + RPage_tail_upage_used) 0;
          h = store_u32 h (root + RPage_free_pages) INVALID_OFFSET;
          h = store_u32 h (root + RPage_tot_pages) 16;
          h = store_u32 h (root + RPage_num_pages) 3;
          h = store_u32 h (root + RPage_root + Entity_refs) 1;
          h = store_u32 h (root + RPage_root + Entity_flags) ENTITY_DIR;
          h = store_u32 h (root + RPage_root + Entity_head) 4096;
          h = store_u32 h (root + RPage_root + Entity_tail) 4096;
          h = h(root_handle root 0 + Handle_used := 1);
          h = store_u16 h (root_handle root 0 + Handle_gen) 0xFFFE;
          h = store_u32 h (root_handle root 0 + Handle_entity) 7552;
          h = store_u16 h (root_handle root 1 + Handle_gen) 1;
          h = store_u32 h (dpage + 16) INVALID_OFFSET;
          h = store_u32 h (dpage + DPage_next) INVALID_OFFSET;
          h = store_u32 h (link_off dpage 0) 7552;
          h = set_link_name h dpage 0 ''a'';
          h = store_u32 h (file + Entity_refs) 2;
          h = store_u32 h (file + Entity_flags) ENTITY_FILE;
          h = store_u32 h (file + Entity_head) INVALID_OFFSET
      in store_u32 h (file + Entity_tail) INVALID_OFFSET)"

definition ex_fs_world :: world where
  "ex_fs_world = \<lparr>fs = attached 4096, heap = ex_fs_heap, host = quiet_host\<rparr>"

text \<open>
  The same file system right after \<^verbatim>\<open>cozyfs_transaction_begin\<close> returned: the
  session is in a transaction with no patch yet and holds ticket 5000, which is in the
  lock word. The host will answer the first MALLOC with a page at 1 MiB and the first
  FREE with success.
\<close>

definition ex_txn_host :: host where
  "ex_txn_host =
     \<lparr>answers = (\<lambda>sop k. if sop = COZYFS_SYSOP_MALLOC \<and> k = 0 then 1048576
                          else if sop = COZYFS_SYSOP_FREE \<and> k = 0 then 1 else 0),
      calls = []\<rparr>"

definition ex_txn_world :: world where
  "ex_txn_world =
     \<lparr>fs = (attached 4096)\<lparr>ticket := 5000, transaction := TRANSACTION_ON\<rparr>,
      heap = store_u64 ex_fs_heap (4096 + RPage_lock) 5000,
      host = ex_txn_host\<rparr>"

text \<open>
  The session and the heap that \<^verbatim>\<open>mkusr(fs, "bob")\<close> leaves when it is called on
  \<open>ex_txn_world\<close>: one patch, the private copy at 1 MiB of the root page, which holds
  the two counters that were bumped, and the record of the user, identifier 1 and name
  \<^verbatim>\<open>bob\<close>, in the first slot of the user page at address 12288.
\<close>

definition ex_txn_session :: CozyFS where
  "ex_txn_session =
     \<lparr>mem = 4096, ticket = 5000, transaction = TRANSACTION_ON, patch_count = 1,
      patch_offs = (replicate 128 0)[0 := 0], patch_ptrs = (replicate 128 0)[0 := 1048576]\<rparr>"

definition ex_txn_heap1 :: heap where
  "ex_txn_heap1 =
     store_string
       (my_memset
          (store_u32
             (store_u16
                (store_u32 (my_memcpy (store_u64 ex_fs_heap 4104 5000) 1048576 4096 4096)
                   1048628 1)
                12300 1)
             1048608 2)
          12302 0 30)
       12302 ''bob'' (length ''bob'')"

section \<open>Properties of the path parser\<close>

lemma scan_comp_stops:
  "i \<le> length q \<Longrightarrow> scan_comp q i < length q \<Longrightarrow> q ! (scan_comp q i) = CHR ''/''"
proof (induction q i rule: scan_comp.induct)
  case (1 path i)
  show ?case
  proof (cases "i < length path \<and> path ! i \<noteq> CHR ''/''")
    case True
    then have eq: "scan_comp path i = scan_comp path (i + 1)" by (simp add: scan_comp_step)
    with 1 True show ?thesis by simp
  next
    case False
    then have "scan_comp path i = i" by (simp add: scan_comp_stop)
    with 1 False show ?thesis by auto
  qed
qed

lemma scan_comp_append_slash:
  "i \<le> length q \<Longrightarrow> scan_comp (q @ ''/'') i = scan_comp q i"
proof (induction q i rule: scan_comp.induct)
  case (1 path i)
  show ?case
  proof (cases "i < length path \<and> path ! i \<noteq> CHR ''/''")
    case True
    then have "scan_comp path i = scan_comp path (i + 1)" by (simp add: scan_comp_step)
    moreover from True have "scan_comp (path @ ''/'') i = scan_comp (path @ ''/'') (i + 1)"
      by (simp add: scan_comp_step nth_append)
    ultimately show ?thesis using 1 True by simp
  next
    case False
    then have "scan_comp path i = i" by (simp add: scan_comp_stop)
    moreover from False 1(2) have "scan_comp (path @ ''/'') i = i"
      by (auto simp add: scan_comp_stop nth_append)
    ultimately show ?thesis by simp
  qed
qed

lemma parse_loop_append_slash:
  "i < length q \<Longrightarrow> last q \<noteq> CHR ''/'' \<Longrightarrow>
   parse_loop (q @ ''/'') mx i comps num = parse_loop q mx i comps num"
proof (induction "length q - i" arbitrary: i comps num rule: less_induct)
  case less
  define i1 where "i1 = scan_comp q i"
  have i1_le: "i1 \<le> length q" and i1_ge: "i \<le> i1"
    using less.prems by (simp_all add: i1_def scan_comp_le scan_comp_ge)
  have scan': "scan_comp (q @ ''/'') i = i1"
    using less.prems by (simp add: i1_def scan_comp_append_slash)
  have slice: "take (i1 - i) (drop i (q @ ''/'')) = take (i1 - i) (drop i q)"
    using i1_le by simp
  show ?case
  proof (cases "i1 = length q")
    case True
    show ?thesis
      apply (subst parse_loop.simps)
      apply (subst (2) parse_loop.simps)
      using True slice
      apply (simp add: Let_def scan' i1_def [symmetric])
      done
  next
    case False
    with i1_le have lt: "i1 < length q" by simp
    then have slash: "q ! i1 = CHR ''/''"
      using less.prems scan_comp_stops [of i q] by (simp add: i1_def)
    have not_end: "i1 + 1 \<noteq> length q"
    proof
      assume "i1 + 1 = length q"
      then have "i1 = length q - 1" and "q \<noteq> []" using lt by auto
      then have "last q = q ! i1" by (simp add: last_conv_nth)
      with slash less.prems show False by simp
    qed
    then have next_lt: "i1 + 1 < length q" using lt by simp
    have IH: "parse_loop (q @ ''/'') mx (i1 + 1) c n = parse_loop q mx (i1 + 1) c n" for c n
      using less.hyps [of "i1 + 1" c n] next_lt i1_ge less.prems by simp
    show ?thesis
      apply (subst parse_loop.simps)
      apply (subst (2) parse_loop.simps)
      using lt slash not_end slice IH
      apply (simp add: Let_def scan' i1_def [symmetric] nth_append)
      done
  qed
qed

text \<open>
  Claim C10. For every non-empty path \<open>p\<close> that does not end in \<^verbatim>\<open>'/'\<close>,
  \<^verbatim>\<open>parse_path\<close> applied to \<open>p\<close> followed by one \<^verbatim>\<open>'/'\<close> returns exactly what it
  returns on \<open>p\<close> (the same result code and the same component array): a single
  trailing slash is accepted, not rejected as an empty component.
\<close>

theorem parse_path_trailing_slash:
  assumes "p \<noteq> []" and "last p \<noteq> CHR ''/''"
  shows "parse_path (p @ ''/'') comps mx = parse_path p comps mx"
proof (cases "p ! 0 = CHR ''/''")
  case True
  with assms have len: "length p > 1"
    by (cases p; cases "tl p") (auto)
  then have "drop 1 p \<noteq> []" "last (drop 1 p) = last p" by (simp_all)
  with assms parse_loop_append_slash [of 0 "drop 1 p" mx comps 0] True len
  show ?thesis by (simp add: parse_path_def nth_append)
next
  case False
  with assms parse_loop_append_slash [of 0 p mx comps 0]
  show ?thesis by (simp add: parse_path_def nth_append)
qed

text \<open>
  The theorem at \<^verbatim>\<open>"a/b"\<close>, with the 32 cells the callers pass: with the slash
  too the result is the two components \<^verbatim>\<open>a\<close> and \<^verbatim>\<open>b\<close>.
\<close>

theorem parse_path_trailing_slash_witness:
  "parse_path ''a/b/'' (replicate 32 []) 32 = parse_path ''a/b'' (replicate 32 []) 32 \<and>
   parse_path ''a/b/'' (replicate 32 []) 32 =
     Some (2, (replicate 32 [])[0 := ''a'', 1 := ''b''])"
proof -
  have "parse_path ''a/b'' (replicate 32 []) 32 =
      Some (2, (replicate 32 [])[0 := ''a'', 1 := ''b''])"
    by (simp add: parse_path_def parse_loop.simps scan_comp.simps Let_def is_dotdot_def
        is_dot_def)
  with parse_path_trailing_slash [of "''a/b''" "replicate 32 []" 32] show ?thesis by simp
qed

lemma split_on_nonempty [simp]: "split_on c xs \<noteq> []"
  by (induction xs) auto

lemma is_dotdot_iff: "is_dotdot c \<longleftrightarrow> c = ''..''"
  by (cases c; cases "tl c"; cases "tl (tl c)") (auto simp: is_dotdot_def)

lemma is_dot_iff: "is_dot c \<longleftrightarrow> c = ''.''"
  by (cases c; cases "tl c") (auto simp: is_dot_def)

lemma scan_comp_takeWhile:
  "i \<le> length q \<Longrightarrow> scan_comp q i = i + length (takeWhile (\<lambda>x. x \<noteq> CHR ''/'') (drop i q))"
proof (induction q i rule: scan_comp.induct)
  case (1 path i)
  show ?case
  proof (cases "i < length path \<and> path ! i \<noteq> CHR ''/''")
    case True
    then have d: "drop i path = path ! i # drop (i + 1) path"
      by (simp add: Cons_nth_drop_Suc)
    from True have "scan_comp path i = scan_comp path (i + 1)" by (simp add: scan_comp_step)
    with 1 True d show ?thesis by simp
  next
    case False
    then have s: "scan_comp path i = i" by (simp add: scan_comp_stop)
    show ?thesis
    proof (cases "i < length path")
      case True
      with False have "drop i path = CHR ''/'' # drop (i + 1) path"
        by (simp add: Cons_nth_drop_Suc [symmetric])
      with s show ?thesis by simp
    next
      case False
      with s 1(2) show ?thesis by simp
    qed
  qed
qed


lemma split_on_no_sep:
  "dropWhile (\<lambda>x. x \<noteq> c) r = [] \<Longrightarrow> split_on c r = [r]"
proof (induction r)
  case Nil
  show ?case by simp
next
  case (Cons x xs)
  from Cons.prems have "x \<noteq> c" by (auto split: if_splits)
  moreover from Cons.prems this have "dropWhile (\<lambda>x. x \<noteq> c) xs = []" by simp
  ultimately show ?case using Cons.IH by simp
qed

lemma split_on_sep:
  "dropWhile (\<lambda>x. x \<noteq> c) r = y # rest \<Longrightarrow>
   split_on c r = takeWhile (\<lambda>x. x \<noteq> c) r # split_on c rest"
proof (induction r)
  case Nil
  then show ?case by simp
next
  case (Cons x xs)
  show ?case
  proof (cases "x = c")
    case True
    with Cons.prems show ?thesis by simp
  next
    case False
    with Cons.prems have "dropWhile (\<lambda>x. x \<noteq> c) xs = y # rest" by simp
    from Cons.IH [OF this] False show ?thesis by simp
  qed
qed

lemma inner_comps_unfold:
  assumes "r \<noteq> []"
  shows "inner_comps r =
           takeWhile (\<lambda>x. x \<noteq> CHR ''/'') r #
           (if drop 1 (dropWhile (\<lambda>x. x \<noteq> CHR ''/'') r) = [] then []
            else inner_comps (drop 1 (dropWhile (\<lambda>x. x \<noteq> CHR ''/'') r)))"
proof (cases "dropWhile (\<lambda>x. x \<noteq> CHR ''/'') r")
  case Nil
  then have tw: "takeWhile (\<lambda>x. x \<noteq> CHR ''/'') r = r"
    by (metis append_Nil2 takeWhile_dropWhile_id)
  have "split_on CHR ''/'' r = [r]" using Nil by (rule split_on_no_sep)
  then have "inner_comps r = [r]" using assms by (simp add: inner_comps_def)
  then show ?thesis unfolding Nil tw by simp
next
  case (Cons y rest)
  have sp: "split_on CHR ''/'' r = takeWhile (\<lambda>x. x \<noteq> CHR ''/'') r # split_on CHR ''/'' rest"
    using Cons by (rule split_on_sep)
  show ?thesis
  proof (cases "rest = []")
    case True
    then have "inner_comps r = [takeWhile (\<lambda>x. x \<noteq> CHR ''/'') r]"
      by (simp add: inner_comps_def sp)
    then show ?thesis unfolding Cons using True by simp
  next
    case False
    have "inner_comps r = takeWhile (\<lambda>x. x \<noteq> CHR ''/'') r # inner_comps rest"
      by (simp add: inner_comps_def sp Let_def)
    then show ?thesis unfolding Cons using False by simp
  qed
qed

lemma parse_loop_refines:
  "i < length q \<Longrightarrow> num \<le> mx \<Longrightarrow> length comps = mx \<Longrightarrow>
   agrees (walk_comps mx (take num comps) (inner_comps (drop i q))) (parse_loop q mx i comps num)"
proof (induction "length q - i" arbitrary: i comps num rule: less_induct)
  case less
  define r where "r = drop i q"
  define c where "c = takeWhile (\<lambda>x. x \<noteq> CHR ''/'') r"
  define i1 where "i1 = scan_comp q i"
  have r_ne: "r \<noteq> []" using less.prems by (simp add: r_def)
  have i1_eq: "i1 = i + length c"
    using less.prems by (simp add: i1_def c_def r_def scan_comp_takeWhile)
  have i1_le: "i1 \<le> length q"
    using less.prems by (simp add: i1_def scan_comp_le)
  have cmp: "take (i1 - i) (drop i q) = c"
    by (simp add: i1_eq c_def r_def takeWhile_eq_take [symmetric])
  have rest: "drop 1 (dropWhile (\<lambda>x. x \<noteq> CHR ''/'') r) = drop (i1 + 1) q"
    by (simp add: dropWhile_eq_drop i1_eq c_def r_def add.commute)
  have inner: "inner_comps (drop i q) =
      c # (if i1 = length q \<or> i1 + 1 = length q then [] else inner_comps (drop (i1 + 1) q))"
  proof -
    have "drop (i1 + 1) q = [] \<longleftrightarrow> i1 = length q \<or> i1 + 1 = length q"
      using i1_le by auto
    with inner_comps_unfold [OF r_ne] show ?thesis
      unfolding rest c_def [symmetric] by (simp add: r_def)
  qed
  have slash: "i1 \<noteq> length q \<Longrightarrow> q ! i1 = CHR ''/''"
    using less.prems i1_le scan_comp_stops [of i q] by (simp add: i1_def)
  have IH: "n \<le> mx \<Longrightarrow> length cs = mx \<Longrightarrow> i1 \<noteq> length q \<Longrightarrow> i1 + 1 \<noteq> length q \<Longrightarrow> c \<noteq> [] \<Longrightarrow>
      agrees (walk_comps mx (take n cs) (inner_comps (drop (i1 + 1) q)))
        (parse_loop q mx (i1 + 1) cs n)" for n cs
    using less.hyps [of "i1 + 1" n cs] i1_le less.prems by (simp add: i1_eq)
  have done_ok: "n \<le> mx \<Longrightarrow> length cs = mx \<Longrightarrow>
      agrees (Inr (take n cs)) (Some (int n, cs))" for n cs
    by (simp add: agrees_def)
  consider (empty) "c = []" | (dotdot) "c = ''..''" | (dot) "c = ''.''"
    | (name) "c \<noteq> []" "c \<noteq> ''..''" "c \<noteq> ''.''" by blast
  then show ?case
  proof cases
    case empty
    then have "i1 - i = 0" by (simp add: i1_eq)
    then show ?thesis
      by (subst parse_loop.simps) (simp add: inner empty i1_def [symmetric] agrees_def)
  next
    case dotdot
    then have len: "i1 - i \<noteq> 0" by (simp add: i1_eq)
    show ?thesis
    proof (cases "num = 0")
      case True
      with len show ?thesis
        by (subst parse_loop.simps)
           (simp add: inner dotdot i1_def [symmetric] agrees_def Let_def cmp is_dotdot_iff)
    next
      case False
      then have stack: "take num comps \<noteq> []" "butlast (take num comps) = take (num - 1) comps"
        using less.prems by (auto simp add: butlast_take)
      have n': "num - 1 \<le> mx" using less.prems by simp
      show ?thesis
        apply (subst parse_loop.simps)
        using len False stack slash IH [OF n' less.prems(3)] done_ok [OF n' less.prems(3)]
        apply (simp add: inner dotdot i1_def [symmetric] Let_def cmp is_dotdot_iff is_dot_iff)
        done
    qed
  next
    case dot
    then have len: "i1 - i \<noteq> 0" by (simp add: i1_eq)
    show ?thesis
      apply (subst parse_loop.simps)
      using len slash IH [OF less.prems(2) less.prems(3)] done_ok [OF less.prems(2) less.prems(3)]
      apply (simp add: inner dot i1_def [symmetric] Let_def cmp is_dotdot_iff is_dot_iff)
      done
  next
    case name
    then have len: "i1 - i \<noteq> 0" by (simp add: i1_eq)
    have size: "length (take num comps) = num" using less.prems by simp
    show ?thesis
    proof (cases "num = mx")
      case True
      with len name size show ?thesis
        by (subst parse_loop.simps)
           (simp add: inner i1_def [symmetric] agrees_def Let_def cmp is_dotdot_iff is_dot_iff)
    next
      case False
      then have lt: "num < length comps" using less.prems by simp
      then have stack: "take (num + 1) (comps[num := c]) = take num comps @ [c]"
        by (simp add: take_Suc_conv_app_nth)
      have n': "num + 1 \<le> mx" using lt less.prems by simp
      have l': "length (comps[num := c]) = mx" using less.prems by simp
      show ?thesis
        apply (subst parse_loop.simps)
        using len False name size slash IH [OF n' l'] done_ok [OF n' l']
        apply (simp add: inner i1_def [symmetric] Let_def cmp is_dotdot_iff is_dot_iff stack [simplified])
        done
    qed
  qed
qed

lemma parse_path_empty: "parse_path [] comps mx = Some (- COZYFS_EINVAL, comps)"
  by (simp add: parse_path_def parse_loop.simps [of "[]"] scan_comp_stop)

text \<open>
  Claim C8, as amended. For every byte string \<open>p\<close> and every array of \<open>mx\<close> cells
  (the callers pass 32): \<^verbatim>\<open>parse_path\<close> rejects the empty string with EINVAL, and on
  every other \<open>p\<close> it does what the specification words say: it strips one optional
  leading \<^verbatim>\<open>'/'\<close>, splits on \<^verbatim>\<open>'/'\<close>, fails with EINVAL at an empty component
  between two separators, drops \<^verbatim>\<open>"."\<close>, pops the stack at \<^verbatim>\<open>".."\<close> and fails with
  EINVAL when the stack is empty, fails (with ENOMEM) when a component would be pushed
  on a stack that already holds \<open>mx\<close>, and otherwise returns the number of components
  with the components, in order, in the first cells of the array.
\<close>

theorem parse_path_refines:
  assumes "length comps = mx"
  shows "agrees (if p = [] then Inl COZYFS_EINVAL else parse_path_spec mx p)
           (parse_path p comps mx)"
proof (cases "p = []")
  case True
  then show ?thesis by (simp add: parse_path_empty agrees_def)
next
  case False
  show ?thesis
  proof (cases "hd p = CHR ''/''")
    case True
    with False have p0: "p ! 0 = CHR ''/''" by (simp add: hd_conv_nth)
    show ?thesis
    proof (cases "tl p = []")
      case True
      with False have "length p = 1" by (cases p) auto
      with False p0 True \<open>hd p = CHR ''/''\<close> show ?thesis
        by (simp add: parse_path_def parse_path_spec_def inner_comps_def agrees_def)
    next
      case False
      then have "0 < length (tl p)" by (cases "tl p") simp_all
      from parse_loop_refines [OF this, of 0 mx comps] assms False \<open>p \<noteq> []\<close> p0 True
      show ?thesis
        by (simp add: parse_path_def parse_path_spec_def drop_Suc) (cases p; simp)
    qed
  next
    case hd_ne: False
    with \<open>p \<noteq> []\<close> have p0: "p ! 0 \<noteq> CHR ''/''" by (simp add: hd_conv_nth)
    from \<open>p \<noteq> []\<close> have "0 < length p" by simp
    from parse_loop_refines [OF this, of 0 mx comps] assms p0 hd_ne \<open>p \<noteq> []\<close>
    show ?thesis
      by (simp add: parse_path_def parse_path_spec_def)
  qed
qed

text \<open>The theorem at \<^verbatim>\<open>"/a/./b/../c/"\<close>: two components, \<^verbatim>\<open>a\<close> and \<^verbatim>\<open>c\<close>.\<close>

theorem parse_path_refines_witness:
  "agrees (Inr [''a'', ''c'']) (parse_path ''/a/./b/../c/'' (replicate 32 []) 32)"
  using parse_path_refines [of "replicate 32 []" 32 "''/a/./b/../c/''"]
  by (simp add: parse_path_spec_def inner_comps_def Let_def)

text \<open>
  Claim C8 as stated fails on the empty path: it has no component between two
  separators and nothing to pop, so the words of the claim give the empty list of
  components (as they do for \<^verbatim>\<open>"/"\<close>), and \<^verbatim>\<open>parse_path\<close> returns EINVAL.
\<close>

theorem parse_path_empty_counterexample:
  "\<not> agrees (parse_path_spec 32 []) (parse_path [] (replicate 32 []) 32)"
  by (simp add: parse_path_empty parse_path_spec_def inner_comps_def agrees_def errno_defs)

section \<open>Properties of the memory\<close>

lemma cat_8: "word_cat (ucast (drop_bit 8 v) :: u8) (ucast v :: u8) = (v :: u16)"
  by (rule bit_word_eqI) (auto simp add: bit_simps)
lemma cat_16: "word_cat (ucast (drop_bit 16 v) :: u16) (ucast v :: u16) = (v :: u32)"
  by (rule bit_word_eqI) (auto simp add: bit_simps)
lemma cat_32: "word_cat (ucast (drop_bit 32 v) :: u32) (ucast v :: u32) = (v :: u64)"
  by (rule bit_word_eqI) (auto simp add: bit_simps)

lemma store_u16_apply:
  "store_u16 h a v b = (if b = a then ucast v else if b = a + 1 then ucast (drop_bit 8 v) else h b)"
  by (simp add: store_u16_def)

lemma store_u16_other: "b < a \<or> a + 2 \<le> b \<Longrightarrow> store_u16 h a v b = h b"
  by (auto simp add: store_u16_def)
lemma store_u32_other: "b < a \<or> a + 4 \<le> b \<Longrightarrow> store_u32 h a v b = h b"
  by (auto simp add: store_u32_def store_u16_other)
lemma store_u64_other: "b < a \<or> a + 8 \<le> b \<Longrightarrow> store_u64 h a v b = h b"
  by (auto simp add: store_u64_def store_u32_other)

lemma load_u16_eqI:
  assumes "\<And>i. i < 2 \<Longrightarrow> h (a + i) = h' (b + i)"
  shows "load_u16 h a = load_u16 h' b"
proof -
  have "h a = h' b" using assms [of 0] by simp
  moreover have "h (a + 1) = h' (b + 1)" using assms [of 1] by simp
  ultimately show ?thesis unfolding load_u16_def by (simp only:)
qed

lemma load_u32_eqI:
  assumes "\<And>i. i < 4 \<Longrightarrow> h (a + i) = h' (b + i)"
  shows "load_u32 h a = load_u32 h' b"
proof -
  have "load_u16 h a = load_u16 h' b"
    by (rule load_u16_eqI) (simp add: assms)
  moreover have "load_u16 h (a + 2) = load_u16 h' (b + 2)"
  proof (rule load_u16_eqI)
    fix i :: nat assume "i < 2"
    then show "h (a + 2 + i) = h' (b + 2 + i)" using assms [of "2 + i"] by (simp add: add.assoc)
  qed
  ultimately show ?thesis unfolding load_u32_def by (simp only:)
qed

lemma load_u64_eqI:
  assumes "\<And>i. i < 8 \<Longrightarrow> h (a + i) = h' (b + i)"
  shows "load_u64 h a = load_u64 h' b"
proof -
  have "load_u32 h a = load_u32 h' b"
    by (rule load_u32_eqI) (simp add: assms)
  moreover have "load_u32 h (a + 4) = load_u32 h' (b + 4)"
  proof (rule load_u32_eqI)
    fix i :: nat assume "i < 4"
    then show "h (a + 4 + i) = h' (b + 4 + i)" using assms [of "4 + i"] by (simp add: add.assoc)
  qed
  ultimately show ?thesis unfolding load_u64_def by (simp only:)
qed

lemma load_store_u16: "load_u16 (store_u16 h a v) a = v"
  unfolding load_u16_def by (simp add: store_u16_apply cat_8)

lemma load_store_u32: "load_u32 (store_u32 h a v) a = v"
proof -
  have "load_u16 (store_u32 h a v) (a + 2) = ucast (drop_bit 16 v)"
    unfolding store_u32_def by (rule load_store_u16)
  moreover have "load_u16 (store_u32 h a v) a = load_u16 (store_u16 h a (ucast v)) a"
    unfolding store_u32_def by (rule load_u16_eqI) (simp add: store_u16_other)
  ultimately show ?thesis unfolding load_u32_def by (simp only: load_store_u16 cat_16)
qed

lemma load_store_u64: "load_u64 (store_u64 h a v) a = v"
proof -
  have "load_u32 (store_u64 h a v) (a + 4) = ucast (drop_bit 32 v)"
    unfolding store_u64_def by (rule load_store_u32)
  moreover have "load_u32 (store_u64 h a v) a = load_u32 (store_u32 h a (ucast v)) a"
    unfolding store_u64_def by (rule load_u32_eqI) (simp add: store_u32_other)
  ultimately show ?thesis unfolding load_u64_def by (simp only: load_store_u32 cat_32)
qed

lemma my_memcpy_outside:
  "a < dst \<or> dst + n \<le> a \<Longrightarrow> my_memcpy h dst src n a = h a"
  by (induction n) (auto simp add: Let_def)

lemma my_memcpy_inside:
  "dst \<le> src \<or> src + n \<le> dst \<Longrightarrow> i < n \<Longrightarrow> my_memcpy h dst src n (dst + i) = h (src + i)"
proof (induction n arbitrary: i)
  case 0
  then show ?case by simp
next
  case (Suc n)
  show ?case
  proof (cases "i = n")
    case True
    have "src + n < dst \<or> dst + n \<le> src + n" using Suc.prems by auto
    then have "my_memcpy h dst src n (src + n) = h (src + n)" by (rule my_memcpy_outside)
    with True show ?thesis by (simp add: Let_def)
  next
    case False
    with Suc.prems have "i < n" by simp
    moreover from Suc.prems have "dst \<le> src \<or> src + n \<le> dst" by auto
    ultimately have "my_memcpy h dst src n (dst + i) = h (src + i)" by (rule Suc.IH [rotated])
    with False show ?thesis by (simp add: Let_def)
  qed
qed

lemmas heap_eval =
  load_u64_def load_u32_def load_u16_def store_u64_def store_u32_def store_u16_def word_cat_eq

lemma my_memcpy_apply:
  "dst \<le> src \<or> src + n \<le> dst \<Longrightarrow>
   my_memcpy h dst src n a = (if dst \<le> a \<and> a < dst + n then h (src + (a - dst)) else h a)"
proof (cases "dst \<le> a \<and> a < dst + n")
  case True
  assume d: "dst \<le> src \<or> src + n \<le> dst"
  from True have "a - dst < n" by linarith
  with d have "my_memcpy h dst src n (dst + (a - dst)) = h (src + (a - dst))"
    by (rule my_memcpy_inside)
  with True show ?thesis by simp
next
  case False
  then have "a < dst \<or> dst + n \<le> a" by auto
  then have "my_memcpy h dst src n a = h a" by (rule my_memcpy_outside)
  with False show ?thesis by auto
qed

lemma my_memset_apply:
  "my_memset h dst c n a = (if dst \<le> a \<and> a < dst + n then c else h a)"
  by (induction n) auto

lemma store_string_apply:
  "store_string h dst s n a = (if dst \<le> a \<and> a < dst + n then of_char (s ! (a - dst)) else h a)"
  by (induction n) (auto simp: less_Suc_eq)


lemma scan_while_stop: "\<not> (i < n \<and> c i) \<Longrightarrow> scan_while c n i = i"
  by (subst scan_while.simps) auto


section \<open>Writable addresses\<close>



section \<open>Releasing the lock\<close>

text \<open>
  Claim C3, at an input where the code does something else. The session holds ticket
  5000 and the lock word of the root page, at address 4104, holds 5000 too: the lock is
  held and was not stolen. \<^verbatim>\<open>unlock\<close> takes the value 5000 for the address of the
  word, finds 0 there, and returns \<^verbatim>\<open>-COZYFS_ETIMEDOUT\<close>; the lock word is still
  5000 and the host was not called.
\<close>

theorem unlock_held_lock_times_out:
  "load_u64 (heap ex_held_world) (mem (fs ex_held_world) + RPage_lock) =
     ticket (fs ex_held_world) \<and>
   unlock ex_held_world = Some (- COZYFS_ETIMEDOUT, ex_held_world)"
  by (simp add: unlock_def cmpxchg_def ex_held_world_def attached_def RPage_lock_def NULL_def
      Let_def heap_eval)

section \<open>Restoring the backup\<close>

lemma ex_backup_world_facts:
  "mem (fs ex_backup_world) = 4096"
  "sint (ucast (load_u64 (heap ex_backup_world) 4112) :: 32 word) = 1"
  by (simp_all add: ex_backup_world_def attached_def heap_eval)

lemma ex_nobackup_world_facts:
  "mem (fs ex_nobackup_world) = 4096"
  "sint (ucast (load_u64 (heap ex_nobackup_world) 4112) :: 32 word) = - 1"
  by (simp_all add: ex_nobackup_world_def attached_def heap_eval)

text \<open>
  Claim C4, at inputs where the code does something else. With the backup flag at
  \<^verbatim>\<open>BACKUP_NO\<close>, \<^verbatim>\<open>restore_backup\<close> returns 0, which is not an error code, and
  changes nothing. With the flag at 1 it does not return: it traps in \<^verbatim>\<open>OFFSETOF\<close>
  before a byte is copied.
\<close>

theorem restore_backup_no_error_no_copy:
  "sint (ucast (load_u64 (heap ex_nobackup_world) (mem (fs ex_nobackup_world) + RPage_backup))
      :: 32 word) = BACKUP_NO \<and>
   restore_backup ex_nobackup_world = Some (0, ex_nobackup_world) \<and>
   sint (ucast (load_u64 (heap ex_backup_world) (mem (fs ex_backup_world) + RPage_backup))
      :: 32 word) = 1 \<and>
   restore_backup ex_backup_world = None"
  by (simp add: restore_backup_def OFFSETOF_def ex_backup_world_facts ex_nobackup_world_facts
      RPage_backup_def BACKUP_NO_def Let_def)

section \<open>Reading the heap after writes\<close>

text \<open>
  Rewrite rules that read a byte or a field back from a heap built by stores, fills and
  copies: a read that a write does not overlap sees the heap below it.
\<close>

named_theorems heap_simps

lemma store_u16_outside: "b < a \<or> a + 2 \<le> b \<Longrightarrow> store_u16 h a v b = h b"
  by (auto simp add: store_u16_def)

lemma store_u32_outside: "b < a \<or> a + 4 \<le> b \<Longrightarrow> store_u32 h a v b = h b"
  by (auto simp add: store_u32_def store_u16_outside)

lemma store_u64_outside: "b < a \<or> a + 8 \<le> b \<Longrightarrow> store_u64 h a v b = h b"
  by (auto simp add: store_u64_def store_u32_outside)

lemma load_u16_fun_upd [heap_simps]:
  "b < a \<or> a + 2 \<le> b \<Longrightarrow> load_u16 (h(b := v)) a = load_u16 h a"
  by (rule load_u16_eqI) auto

lemma load_u16_store_u16_other [heap_simps]:
  "a + 2 \<le> b \<or> b + 2 \<le> a \<Longrightarrow> load_u16 (store_u16 h b v) a = load_u16 h a"
  by (rule load_u16_eqI) (auto simp add: store_u16_outside)

lemma load_u16_store_u32_other [heap_simps]:
  "a + 2 \<le> b \<or> b + 4 \<le> a \<Longrightarrow> load_u16 (store_u32 h b v) a = load_u16 h a"
  by (rule load_u16_eqI) (auto simp add: store_u32_outside)

lemma load_u16_store_u64_other [heap_simps]:
  "a + 2 \<le> b \<or> b + 8 \<le> a \<Longrightarrow> load_u16 (store_u64 h b v) a = load_u16 h a"
  by (rule load_u16_eqI) (auto simp add: store_u64_outside)

lemma load_u16_my_memset_other [heap_simps]:
  "a + 2 \<le> b \<or> b + m \<le> a \<Longrightarrow> load_u16 (my_memset h b c m) a = load_u16 h a"
  by (rule load_u16_eqI) (auto simp add: my_memset_apply)

lemma load_u16_store_string_other [heap_simps]:
  "a + 2 \<le> b \<or> b + m \<le> a \<Longrightarrow> load_u16 (store_string h b s m) a = load_u16 h a"
  by (rule load_u16_eqI) (auto simp add: store_string_apply)

lemma load_u16_my_memcpy_other [heap_simps]:
  "a + 2 \<le> dst \<or> dst + m \<le> a \<Longrightarrow> load_u16 (my_memcpy h dst src m) a = load_u16 h a"
  by (rule load_u16_eqI) (auto simp add: my_memcpy_outside)

lemma load_u16_my_memcpy_inside [heap_simps]:
  assumes "dst \<le> src \<or> src + m \<le> dst" and "dst \<le> a" and "a + 2 \<le> dst + m"
  shows "load_u16 (my_memcpy h dst src m) a = load_u16 h (src + (a - dst))"
proof (rule load_u16_eqI)
  fix i :: nat
  assume "i < 2"
  with assms have "a + i - dst < m" by linarith
  with assms(1) have "my_memcpy h dst src m (dst + (a + i - dst)) = h (src + (a + i - dst))"
    by (rule my_memcpy_inside)
  with assms(2) show "my_memcpy h dst src m (a + i) = h (src + (a - dst) + i)"
    by (simp add: add.commute add.left_commute)
qed

lemma load_u32_fun_upd [heap_simps]:
  "b < a \<or> a + 4 \<le> b \<Longrightarrow> load_u32 (h(b := v)) a = load_u32 h a"
  by (rule load_u32_eqI) auto

lemma load_u32_store_u16_other [heap_simps]:
  "a + 4 \<le> b \<or> b + 2 \<le> a \<Longrightarrow> load_u32 (store_u16 h b v) a = load_u32 h a"
  by (rule load_u32_eqI) (auto simp add: store_u16_outside)

lemma load_u32_store_u32_other [heap_simps]:
  "a + 4 \<le> b \<or> b + 4 \<le> a \<Longrightarrow> load_u32 (store_u32 h b v) a = load_u32 h a"
  by (rule load_u32_eqI) (auto simp add: store_u32_outside)

lemma load_u32_store_u64_other [heap_simps]:
  "a + 4 \<le> b \<or> b + 8 \<le> a \<Longrightarrow> load_u32 (store_u64 h b v) a = load_u32 h a"
  by (rule load_u32_eqI) (auto simp add: store_u64_outside)

lemma load_u32_my_memset_other [heap_simps]:
  "a + 4 \<le> b \<or> b + m \<le> a \<Longrightarrow> load_u32 (my_memset h b c m) a = load_u32 h a"
  by (rule load_u32_eqI) (auto simp add: my_memset_apply)

lemma load_u32_store_string_other [heap_simps]:
  "a + 4 \<le> b \<or> b + m \<le> a \<Longrightarrow> load_u32 (store_string h b s m) a = load_u32 h a"
  by (rule load_u32_eqI) (auto simp add: store_string_apply)

lemma load_u32_my_memcpy_other [heap_simps]:
  "a + 4 \<le> dst \<or> dst + m \<le> a \<Longrightarrow> load_u32 (my_memcpy h dst src m) a = load_u32 h a"
  by (rule load_u32_eqI) (auto simp add: my_memcpy_outside)

lemma load_u32_my_memcpy_inside [heap_simps]:
  assumes "dst \<le> src \<or> src + m \<le> dst" and "dst \<le> a" and "a + 4 \<le> dst + m"
  shows "load_u32 (my_memcpy h dst src m) a = load_u32 h (src + (a - dst))"
proof (rule load_u32_eqI)
  fix i :: nat
  assume "i < 4"
  with assms have "a + i - dst < m" by linarith
  with assms(1) have "my_memcpy h dst src m (dst + (a + i - dst)) = h (src + (a + i - dst))"
    by (rule my_memcpy_inside)
  with assms(2) show "my_memcpy h dst src m (a + i) = h (src + (a - dst) + i)"
    by (simp add: add.commute add.left_commute)
qed

lemma load_u64_fun_upd [heap_simps]:
  "b < a \<or> a + 8 \<le> b \<Longrightarrow> load_u64 (h(b := v)) a = load_u64 h a"
  by (rule load_u64_eqI) auto

lemma load_u64_store_u16_other [heap_simps]:
  "a + 8 \<le> b \<or> b + 2 \<le> a \<Longrightarrow> load_u64 (store_u16 h b v) a = load_u64 h a"
  by (rule load_u64_eqI) (auto simp add: store_u16_outside)

lemma load_u64_store_u32_other [heap_simps]:
  "a + 8 \<le> b \<or> b + 4 \<le> a \<Longrightarrow> load_u64 (store_u32 h b v) a = load_u64 h a"
  by (rule load_u64_eqI) (auto simp add: store_u32_outside)

lemma load_u64_store_u64_other [heap_simps]:
  "a + 8 \<le> b \<or> b + 8 \<le> a \<Longrightarrow> load_u64 (store_u64 h b v) a = load_u64 h a"
  by (rule load_u64_eqI) (auto simp add: store_u64_outside)

lemma load_u64_my_memset_other [heap_simps]:
  "a + 8 \<le> b \<or> b + m \<le> a \<Longrightarrow> load_u64 (my_memset h b c m) a = load_u64 h a"
  by (rule load_u64_eqI) (auto simp add: my_memset_apply)

lemma load_u64_store_string_other [heap_simps]:
  "a + 8 \<le> b \<or> b + m \<le> a \<Longrightarrow> load_u64 (store_string h b s m) a = load_u64 h a"
  by (rule load_u64_eqI) (auto simp add: store_string_apply)

lemma load_u64_my_memcpy_other [heap_simps]:
  "a + 8 \<le> dst \<or> dst + m \<le> a \<Longrightarrow> load_u64 (my_memcpy h dst src m) a = load_u64 h a"
  by (rule load_u64_eqI) (auto simp add: my_memcpy_outside)

lemma load_u64_my_memcpy_inside [heap_simps]:
  assumes "dst \<le> src \<or> src + m \<le> dst" and "dst \<le> a" and "a + 8 \<le> dst + m"
  shows "load_u64 (my_memcpy h dst src m) a = load_u64 h (src + (a - dst))"
proof (rule load_u64_eqI)
  fix i :: nat
  assume "i < 8"
  with assms have "a + i - dst < m" by linarith
  with assms(1) have "my_memcpy h dst src m (dst + (a + i - dst)) = h (src + (a + i - dst))"
    by (rule my_memcpy_inside)
  with assms(2) show "my_memcpy h dst src m (a + i) = h (src + (a - dst) + i)"
    by (simp add: add.commute add.left_commute)
qed

lemma fun_upd_heap [heap_simps]: "(h(b := v)) a = (if a = b then v else h a)"
  by simp

lemma store_u16_byte [heap_simps]:
  "store_u16 h a v b = (if b = a then ucast v else if b = a + 1 then ucast (drop_bit 8 v) else h b)"
  by (simp add: store_u16_def)

lemma store_u32_byte [heap_simps]: "b < a \<or> a + 4 \<le> b \<Longrightarrow> store_u32 h a v b = h b"
  by (rule store_u32_outside)

lemma store_u64_byte [heap_simps]: "b < a \<or> a + 8 \<le> b \<Longrightarrow> store_u64 h a v b = h b"
  by (rule store_u64_outside)

lemma my_memcpy_byte [heap_simps]:
  "dst \<le> src \<or> src + n \<le> dst \<Longrightarrow>
   my_memcpy h dst src n a = (if dst \<le> a \<and> a < dst + n then h (src + (a - dst)) else h a)"
  by (rule my_memcpy_apply)

declare load_store_u16 [heap_simps] load_store_u32 [heap_simps] load_store_u64 [heap_simps]
  my_memset_apply [heap_simps] store_string_apply [heap_simps]

section \<open>The example file system\<close>

text \<open>
  What the example heap holds, and how the session reads it: handle 0 is in use with
  generation \<^verbatim>\<open>0xFFFE\<close> on the file \<^verbatim>\<open>a\<close>, whose inode is at address 11648 (offset
  7552) and has two references; the root directory has one page, at address 8192, with
  the single link \<^verbatim>\<open>a\<close>.
\<close>

lemmas ex_eval = ex_fs_heap_def Let_def layout_defs set_link_name_def

lemma ex_fs_heap_handle0:
  "load_u16 ex_fs_heap 4190 = 0xFFFE"
  "load_u32 ex_fs_heap 4192 = 7552"
  "ex_fs_heap 4188 = 1"
  by (simp_all add: ex_eval heap_simps)

lemma ex_fs_heap_file:
  "load_u32 ex_fs_heap 11648 = 2"
  "load_u32 ex_fs_heap 11652 = 2"
  by (simp_all add: ex_eval heap_simps)

lemma ex_fs_world_simps:
  "fs ex_fs_world = attached 4096"
  "heap ex_fs_world = ex_fs_heap"
  "host ex_fs_world = quiet_host"
  by (simp_all add: ex_fs_world_def)

lemma attached_simps:
  "mem (attached b) = b"
  "transaction (attached b) = TRANSACTION_OFF"
  "patch_count (attached b) = 0"
  by (simp_all add: attached_def)

lemma off2ptr_attached:
  "off \<noteq> INVALID_OFFSET \<Longrightarrow> off2ptr (attached b) off = b + unat off"
  by (simp add: off2ptr_def attached_simps scan_while_stop Let_def)

lemma writable_addr_attached:
  "fs w = attached b \<Longrightarrow> writable_addr p w = (p, w)"
  by (simp add: writable_addr_def attached_simps)

text \<open>
  \<^verbatim>\<open>close_\<close> on the descriptor of handle 0: generation \<^verbatim>\<open>0xFFFE\<close> in the high half,
  index 0 in the low half, the \<^verbatim>\<open>int\<close> -131072.
\<close>

lemma fs_close_example:
  "fs_close (- 131072) ex_fs_world =
     (COZYFS_OK,
      ex_fs_world\<lparr>heap := store_u16 ((store_u32 ex_fs_heap 11648 1)(4188 := 0)) 4190 0xFFFF\<rparr>)"
  by (simp add: fs_close_def unpack_fd_def free_entity_def ex_fs_world_simps attached_simps
      off2ptr_attached writable_addr_attached ex_fs_heap_handle0 ex_fs_heap_file
      layout_defs Let_def heap_simps errno_defs)

lemma load_zero [heap_simps]:
  "load_u16 (\<lambda>a. 0) a = 0" "load_u32 (\<lambda>a. 0) a = 0" "load_u64 (\<lambda>a. 0) a = 0"
  by (simp_all add: heap_eval)

lemma load_u32_my_memset_inside [heap_simps]:
  "b \<le> a \<and> a + 4 \<le> b + m \<Longrightarrow>
   load_u32 (my_memset h b c m) a = word_cat (word_cat c c :: u16) (word_cat c c :: u16)"
  by (simp add: load_u32_def load_u16_def my_memset_apply)

lemma ex_fs_heap_dir:
  "load_u32 ex_fs_heap 4172 = 4096"
  "load_u32 ex_fs_heap 4176 = 4096"
  "load_u32 ex_fs_heap 4168 = 1"
  "load_u32 ex_fs_heap 8216 = 7552"
  "load_u32 ex_fs_heap 8348 = 0xFFFFFFFF"
  "load_u32 ex_fs_heap 8212 = 0xFFFFFFFF"
  "ex_fs_heap 8220 = 97"
  "ex_fs_heap 8221 = 0"
  "load_u32 ex_fs_heap 11656 = 0xFFFFFFFF"
  "load_u32 ex_fs_heap 11672 = 0"
  by (simp_all add: ex_eval heap_simps word_cat_eq)

section \<open>Looking up a name\<close>

text \<open>
  \<^verbatim>\<open>find_entity\<close> on the example: \<^verbatim>\<open>a\<close> is in the root directory, \<^verbatim>\<open>b\<close> is not, and
  a lookup under the file \<^verbatim>\<open>a\<close>, whose page chain is empty, finds nothing.
\<close>

lemma my_strlen_a: "my_strlen ex_fs_heap 8220 = Some 1"
  by (simp add: my_strlen_def my_strlen_from.simps ex_fs_heap_dir NULL_def)

lemma memeq_a: "memeq ''a'' ex_fs_heap 8220 1"
  by (simp add: memeq_def scan_while.simps ex_fs_heap_dir)

lemma find_entity_loop_null: "find_entity_loop f h name NULL i = Some NULL"
  by (subst find_entity_loop.simps) simp

lemma find_entity_loop_hit:
  "dpage \<noteq> NULL \<Longrightarrow> i < COUNT_links \<Longrightarrow> load_u32 h (link_off dpage i) \<noteq> INVALID_OFFSET \<Longrightarrow>
   my_strlen h (link_name dpage i) = Some (length name) \<Longrightarrow>
   memeq name h (link_name dpage i) (length name) \<Longrightarrow>
   find_entity_loop f h name dpage i = Some (off2ptr f (load_u32 h (link_off dpage i)))"
  by (subst find_entity_loop.simps) simp

lemma find_entity_loop_miss:
  "dpage \<noteq> NULL \<Longrightarrow> i < COUNT_links \<Longrightarrow> load_u32 h (link_off dpage i) \<noteq> INVALID_OFFSET \<Longrightarrow>
   my_strlen h (link_name dpage i) = Some n \<Longrightarrow>
   \<not> (length name = n \<and> memeq name h (link_name dpage i) (length name)) \<Longrightarrow>
   find_entity_loop f h name dpage i = find_entity_loop f h name dpage (i + 1)"
  by (subst find_entity_loop.simps) auto

lemma find_entity_loop_next:
  "dpage \<noteq> NULL \<Longrightarrow> \<not> (i < COUNT_links \<and> load_u32 h (link_off dpage i) \<noteq> INVALID_OFFSET) \<Longrightarrow>
   find_entity_loop f h name dpage i =
     find_entity_loop f h name (off2ptr f (load_u32 h (dpage + DPage_next))) 0"
  by (subst find_entity_loop.simps) auto

lemma find_a: "find_entity (attached 4096) ex_fs_heap 4164 ''a'' = Some 11648"
proof -
  have "find_entity_loop (attached 4096) ex_fs_heap ''a'' 8192 0 =
      Some (off2ptr (attached 4096) (load_u32 ex_fs_heap (link_off 8192 0)))"
    by (rule find_entity_loop_hit)
       (simp_all add: layout_defs ex_fs_heap_dir my_strlen_a memeq_a [simplified])
  then show ?thesis
    by (simp add: find_entity_def off2ptr_attached ex_fs_heap_dir layout_defs)
qed

lemma find_b: "find_entity (attached 4096) ex_fs_heap 4164 ''b'' = Some NULL"
proof -
  have b: "\<not> memeq ''b'' ex_fs_heap 8220 (Suc 0)"
    by (simp add: memeq_def scan_while.simps ex_fs_heap_dir)
  have "find_entity_loop (attached 4096) ex_fs_heap ''b'' 8192 0 =
      find_entity_loop (attached 4096) ex_fs_heap ''b'' 8192 (0 + 1)"
    by (rule find_entity_loop_miss [where n = 1])
       (simp_all add: layout_defs ex_fs_heap_dir my_strlen_a b)
  also have "\<dots> = find_entity_loop (attached 4096) ex_fs_heap ''b''
      (off2ptr (attached 4096) (load_u32 ex_fs_heap (8192 + DPage_next))) 0"
    by (rule find_entity_loop_next) (simp_all add: layout_defs ex_fs_heap_dir)
  also have "\<dots> = Some NULL"
    by (simp add: layout_defs ex_fs_heap_dir off2ptr_def find_entity_loop_null [unfolded NULL_def])
  finally show ?thesis
    by (simp add: find_entity_def off2ptr_attached ex_fs_heap_dir layout_defs)
qed

lemma find_x_under_a: "find_entity (attached 4096) ex_fs_heap 11648 ''x'' = Some NULL"
  by (simp add: find_entity_def ex_fs_heap_dir layout_defs off2ptr_def
      find_entity_loop_null [unfolded NULL_def])

section \<open>Removing, creating and opening on the example\<close>

text \<open>
  \<^verbatim>\<open>remove_entity\<close> for the name \<^verbatim>\<open>a\<close> under the root directory leaves through the
  \<^verbatim>\<open>return\<close> inside its search loop.
\<close>

lemma remove_entity_loop_hit:
  "i < COUNT_links \<Longrightarrow> load_u32 h (link_off dpage i) \<noteq> INVALID_OFFSET \<Longrightarrow>
   my_strlen h (link_name dpage i) = Some (length name) \<Longrightarrow>
   memeq name h (link_name dpage i) (length name) \<Longrightarrow>
   remove_entity_loop f h name dpage i = Some (Inl (off2ptr f (load_u32 h (link_off dpage i))))"
  by (subst remove_entity_loop.simps) simp

lemma remove_entity_example:
  "remove_entity (4096 + RPage_root) ''a'' ENTITY_FILE ex_fs_world = Some (11648, ex_fs_world)"
proof -
  have "remove_entity_loop (attached 4096) ex_fs_heap ''a'' 8192 0 =
      Some (Inl (off2ptr (attached 4096) (load_u32 ex_fs_heap (link_off 8192 0))))"
    by (rule remove_entity_loop_hit)
       (simp_all add: layout_defs ex_fs_heap_dir my_strlen_a memeq_a [simplified])
  then have "remove_entity_loop (attached 4096) ex_fs_heap ''a'' 8192 0 = Some (Inl 11648)"
    by (simp add: off2ptr_attached ex_fs_heap_dir layout_defs)
  then show ?thesis
    by (simp add: remove_entity_def ex_fs_world_simps off2ptr_attached ex_fs_heap_dir
        layout_defs ptr_to_int_def)
qed

text \<open>
  \<^verbatim>\<open>mkdir_\<close> for \<^verbatim>\<open>/a\<close>: the first free link of the page is link 1, the first free
  inode of the page is inode 1, and both are filled in.
\<close>

lemma scan_links_example:
  "scan_while (\<lambda>i. load_u32 ex_fs_heap (link_off 8192 i) \<noteq> INVALID_OFFSET) COUNT_links 0 = 1"
  by (simp add: scan_while.simps layout_defs ex_fs_heap_dir)

lemma scan_ents_example:
  "scan_while (\<lambda>j. load_u32 ex_fs_heap (dpage_ent 8192 j + Entity_refs) > 0) COUNT_ents 0 = 1"
  by (simp add: scan_while.simps layout_defs ex_fs_heap_dir ex_fs_heap_file)

lemma create_entity_example:
  "create_entity (4096 + RPage_root) NULL ''a'' ENTITY_DIR ex_fs_world =
     Some (COZYFS_OK,
       ex_fs_world\<lparr>heap := set_link_name
         (link_new_entity (attached 4096) ex_fs_heap 8192 1 (dpage_ent 8192 1)) 8192 1 ''a''\<rparr>)"
  using find_a scan_links_example scan_ents_example
  by (simp add: create_entity_def ex_fs_world_simps off2ptr_attached writable_addr_attached
      ex_fs_heap_dir RPage_root_def Entity_tail_def MAX_NAME_def INVALID_OFFSET_def NULL_def
      COUNT_ents_def Let_def)

lemma parse_path_a:
  "parse_path ''/a'' (replicate 32 []) 32 = Some (1, (replicate 32 [])[0 := ''a''])"
  by (simp add: parse_path_def parse_loop.simps scan_comp.simps Let_def is_dotdot_def is_dot_def)

lemma parse_path_a_x:
  "parse_path ''/a/x'' (replicate 32 []) 32 =
     Some (2, (replicate 32 [])[0 := ''a'', 1 := ''x''])"
  by (simp add: parse_path_def parse_loop.simps scan_comp.simps Let_def is_dotdot_def is_dot_def)

lemma fs_mkdir_example:
  "fs_mkdir ''/a'' ex_fs_world =
     Some (COZYFS_OK,
       ex_fs_world\<lparr>heap := set_link_name
         (link_new_entity (attached 4096) ex_fs_heap 8192 1 (dpage_ent 8192 1)) 8192 1 ''a''\<rparr>)"
  using create_entity_example
  by (simp add: fs_mkdir_def parse_path_a ex_fs_world_simps attached_simps NULL_def RPage_root_def)

text \<open>
  \<^verbatim>\<open>open_\<close> for \<^verbatim>\<open>/a/x\<close> and for \<^verbatim>\<open>/a\<close>: handle 1 is the first unused one.
\<close>

lemma ex_fs_heap_handles:
  "ex_fs_heap 4188 = 1"
  "ex_fs_heap 4200 = 0"
  "load_u16 ex_fs_heap 4202 = 1"
  by (simp_all add: ex_eval heap_simps)

lemma scan_handles_example:
  "scan_while (\<lambda>i. ex_fs_heap (root_handle 4096 i + Handle_used) \<noteq> 0) COUNT_handles 0 = 1"
  by (simp add: scan_while.simps layout_defs ex_fs_heap_handles)

lemma resolve_a: "resolve (attached 4096) ex_fs_heap [''a''] 4164 = Some 11648"
  by (simp add: find_a NULL_def)

lemma fs_open_example:
  "fs_open ''/a/x'' ex_fs_world =
     Some (65537, ex_fs_world\<lparr>heap := (store_u32 ex_fs_heap 4204 7552)(4200 := 1)\<rparr>)"
proof -
  have t: "take (Suc 0) ((replicate 32 [])[0 := ''a'']) = [''a'']"
    by (simp add: take_Suc_conv_app_nth)
  have p: "ptr2off (attached 4096) 11648 = 7552"
    by (simp add: ptr2off_def attached_simps scan_while_stop NULL_def Let_def)
  have fd: "pack_fd (attached 4096) ((store_u32 ex_fs_heap 4204 7552)(4200 := 1)) 4200 = Some 65537"
    by (simp add: pack_fd_def attached_simps layout_defs Let_def heap_simps ex_fs_heap_handles)
  show ?thesis
    using scan_handles_example
    by (simp add: fs_open_def parse_path_a_x ex_fs_world_simps attached_simps t find_a
        writable_addr_attached p fd ex_fs_heap_file
        RPage_root_def NULL_def Entity_flags_def ENTITY_DIR_def COUNT_handles_def
        root_handle_def Handle_entity_def Handle_used_def Let_def)
qed

lemma fs_open_a_example:
  "fs_open ''/a'' ex_fs_world = Some (- COZYFS_EISDIR, ex_fs_world)"
  by (simp add: fs_open_def parse_path_a ex_fs_world_simps attached_simps ex_fs_heap_dir
        RPage_root_def NULL_def Entity_flags_def ENTITY_DIR_def Let_def)

section \<open>A user created inside a transaction\<close>

text \<open>
  \<^verbatim>\<open>mkusr\<close> in the transaction of the example: the root page is patched, the user
  page is reached through \<^verbatim>\<open>off2ptr\<close>. Then \<^verbatim>\<open>cozyfs_transaction_rollback\<close>,
  whose \<^verbatim>\<open>unlock\<close> looks for the lock word at address 5000, finds 0 there and
  leaves the memory as it is.
\<close>

lemma ex_txn_world_simps:
  "fs ex_txn_world = (attached 4096)\<lparr>ticket := 5000, transaction := TRANSACTION_ON\<rparr>"
  "heap ex_txn_world = store_u64 ex_fs_heap 4104 5000"
  "host ex_txn_world = ex_txn_host"
  by (simp_all add: ex_txn_world_def RPage_lock_def)

lemma load_u32_store_u64_low [heap_simps]: "load_u32 (store_u64 h a v) a = ucast v"
  unfolding store_u64_def by (simp add: heap_simps)

lemma load_u32_store_u64_high [heap_simps]:
  "load_u32 (store_u64 h a v) (a + 4) = ucast (drop_bit 32 v)"
  unfolding store_u64_def by (rule load_store_u32)

lemma ex_fs_heap_users:
  "load_u32 ex_fs_heap 4112 = 0xFFFFFFFF"
  "load_u32 ex_fs_heap 4148 = 0"
  "load_u32 ex_fs_heap 4144 = 8192"
  "load_u32 ex_fs_heap 4128 = 1"
  by (simp_all add: ex_eval heap_simps)

lemma get_root_txn: "get_root ex_txn_world = 4096"
  by (simp add: get_root_def ex_txn_world_simps attached_simps heap_simps ex_fs_heap_users
      RPage_backup_def BACKUP_HALF_INACTIVE_def Let_def)

lemma writable_root_txn:
  "writable_addr 4096 ex_txn_world =
     (1048576,
      \<lparr>fs = ex_txn_session,
       heap = my_memcpy (store_u64 ex_fs_heap 4104 5000) 1048576 4096 4096,
       host = ex_txn_host\<lparr>calls := [(COZYFS_SYSOP_MALLOC, Some (NULL, 4096))]\<rparr>\<rparr>)"
  by (simp add: writable_addr_def ex_txn_world_def attached_def scan_while_stop sys_malloc_def
      callback_def ex_txn_host_def COZYFS_MAX_PATCHES_def NULL_def Let_def ex_txn_session_def
      RPage_lock_def)

declare my_memcpy.simps [simp del] my_memset.simps [simp del] store_string.simps [simp del]

lemma create_user_example:
  "create_user ''bob'' ex_txn_world =
     (0, \<lparr>fs = ex_txn_session, heap = ex_txn_heap1,
          host = ex_txn_host\<lparr>calls := [(COZYFS_SYSOP_MALLOC, Some (NULL, 4096))]\<rparr>\<rparr>)"
proof -
  have up: "off2ptr (fs ex_txn_world) 8192 = 12288"
    by (simp add: off2ptr_def ex_txn_world_simps attached_simps scan_while_stop
        INVALID_OFFSET_def Let_def)
  show ?thesis
    by (simp add: create_user_def get_root_txn writable_root_txn ex_txn_world_simps(2)
        heap_simps ex_fs_heap_users up ex_txn_heap1_def
        RPage_tail_upage_used_def RPage_tail_upage_def RPage_next_account_id_def
        COUNT_users_def MAX_USER_NAME_def NULL_def upage_user_def User_name_def Let_def)
qed

lemma ex_txn_session_simps:
  "mem ex_txn_session = 4096" "ticket ex_txn_session = 5000"
  "transaction ex_txn_session = TRANSACTION_ON" "patch_count ex_txn_session = 1"
  "patch_ptrs ex_txn_session ! 0 = 1048576"
  by (simp_all add: ex_txn_session_def)

lemma ex_txn_host_simps:
  "answers ex_txn_host COZYFS_SYSOP_WAKE k = 0"
  "answers ex_txn_host COZYFS_SYSOP_FREE 0 = 1"
  "answers ex_txn_host COZYFS_SYSOP_MALLOC 0 = 1048576"
  "calls ex_txn_host = []"
  by (simp_all add: ex_txn_host_def)

lemma free_patches_example:
  "free_patches 0 \<lparr>fs = ex_txn_session, heap = hp,
       host = ex_txn_host\<lparr>calls := [(COZYFS_SYSOP_MALLOC, Some (NULL, 4096))]\<rparr>\<rparr> =
     \<lparr>fs = ex_txn_session, heap = hp,
      host = ex_txn_host\<lparr>calls := [(COZYFS_SYSOP_MALLOC, Some (NULL, 4096)),
                                   (COZYFS_SYSOP_FREE, Some (1048576, 4096))]\<rparr>\<rparr>"
  by (simp add: free_patches.simps [of 0] free_patches.simps [of "Suc 0"] sys_free_def
      callback_def ex_txn_session_simps ex_txn_host_simps COZYFS_OK_def)

lemma lock_word_example:
  "load_u64 ex_txn_heap1 4104 = 5000"
  "load_u64 ex_txn_heap1 5000 = 0"
  by (simp_all add: ex_txn_heap1_def heap_simps ex_eval)

lemma unlock_example:
  "unlock \<lparr>fs = ex_txn_session\<lparr>patch_count := 0\<rparr>, heap = ex_txn_heap1, host = hst\<rparr> =
     Some (- COZYFS_ETIMEDOUT,
       \<lparr>fs = ex_txn_session\<lparr>patch_count := 0\<rparr>, heap = ex_txn_heap1, host = hst\<rparr>)"
  by (simp add: unlock_def cmpxchg_def lock_word_example RPage_lock_def NULL_def Let_def
      ex_txn_session_simps)

lemma rollback_example:
  "cozyfs_transaction_rollback
     \<lparr>fs = ex_txn_session, heap = ex_txn_heap1,
      host = ex_txn_host\<lparr>calls := [(COZYFS_SYSOP_MALLOC, Some (NULL, 4096))]\<rparr>\<rparr> =
     Some (COZYFS_OK,
       \<lparr>fs = ex_txn_session\<lparr>patch_count := 0, transaction := TRANSACTION_OFF\<rparr>,
        heap = ex_txn_heap1,
        host = ex_txn_host\<lparr>calls := [(COZYFS_SYSOP_MALLOC, Some (NULL, 4096)),
                                     (COZYFS_SYSOP_FREE, Some (1048576, 4096))]\<rparr>\<rparr>)"
  by (simp add: cozyfs_transaction_rollback_def free_patches_example unlock_example Let_def
      ex_txn_session_simps)

lemma leaked_byte: "ex_txn_heap1 12302 = 98" "store_u64 ex_fs_heap 4104 5000 12302 = 0"
  by (simp_all add: ex_txn_heap1_def heap_simps ex_eval)

lemma mkdir_heap_facts:
  "load_u32 (set_link_name (link_new_entity (attached 4096) ex_fs_heap 8192 1 (dpage_ent 8192 1))
      8192 1 ''a'') (link_off 8192 0) = 7552"
  "set_link_name (link_new_entity (attached 4096) ex_fs_heap 8192 1 (dpage_ent 8192 1))
      8192 1 ''a'' (link_name 8192 0) = 97"
  "set_link_name (link_new_entity (attached 4096) ex_fs_heap 8192 1 (dpage_ent 8192 1))
      8192 1 ''a'' (link_name 8192 0 + 1) = 0"
  "load_u32 (set_link_name (link_new_entity (attached 4096) ex_fs_heap 8192 1 (dpage_ent 8192 1))
      8192 1 ''a'') (link_off 8192 1) = 7576"
  "set_link_name (link_new_entity (attached 4096) ex_fs_heap 8192 1 (dpage_ent 8192 1))
      8192 1 ''a'' (link_name 8192 1) = 97"
  "set_link_name (link_new_entity (attached 4096) ex_fs_heap 8192 1 (dpage_ent 8192 1))
      8192 1 ''a'' (link_name 8192 1 + 1) = 0"
  "load_u32 (set_link_name (link_new_entity (attached 4096) ex_fs_heap 8192 1 (dpage_ent 8192 1))
      8192 1 ''a'') (dpage_ent 8192 1 + Entity_refs) = 1"
proof -
  have p: "ptr2off (attached 4096) 11672 = 7576"
    by (simp add: ptr2off_def attached_simps scan_while_stop NULL_def Let_def)
  show
  "load_u32 (set_link_name (link_new_entity (attached 4096) ex_fs_heap 8192 1 (dpage_ent 8192 1))
      8192 1 ''a'') (link_off 8192 0) = 7552"
  "set_link_name (link_new_entity (attached 4096) ex_fs_heap 8192 1 (dpage_ent 8192 1))
      8192 1 ''a'' (link_name 8192 0) = 97"
  "set_link_name (link_new_entity (attached 4096) ex_fs_heap 8192 1 (dpage_ent 8192 1))
      8192 1 ''a'' (link_name 8192 0 + 1) = 0"
  "load_u32 (set_link_name (link_new_entity (attached 4096) ex_fs_heap 8192 1 (dpage_ent 8192 1))
      8192 1 ''a'') (link_off 8192 1) = 7576"
  "set_link_name (link_new_entity (attached 4096) ex_fs_heap 8192 1 (dpage_ent 8192 1))
      8192 1 ''a'' (link_name 8192 1) = 97"
  "set_link_name (link_new_entity (attached 4096) ex_fs_heap 8192 1 (dpage_ent 8192 1))
      8192 1 ''a'' (link_name 8192 1 + 1) = 0"
  "load_u32 (set_link_name (link_new_entity (attached 4096) ex_fs_heap 8192 1 (dpage_ent 8192 1))
      8192 1 ''a'') (dpage_ent 8192 1 + Entity_refs) = 1"
    by (simp_all add: set_link_name_def link_new_entity_def layout_defs Let_def p heap_simps
        ex_fs_heap_dir)
qed

section \<open>The operations at the inputs where they leave the specification\<close>

text \<open>
  Claim C6, at an input where the code does something else. The root directory of the
  example already has a link named \<^verbatim>\<open>a\<close> (\<^verbatim>\<open>find_entity\<close> finds it), link 1 and inode 1
  of its page are free. \<^verbatim>\<open>mkdir_\<close> for \<^verbatim>\<open>/a\<close> returns \<^verbatim>\<open>COZYFS_OK\<close>, not \<^verbatim>\<open>EINVAL\<close>:
  afterwards link 0 is still \<^verbatim>\<open>a\<close> for the old inode, link 1 is a second link named
  \<^verbatim>\<open>a\<close>, for inode 1 of the page (offset 7576), and that inode has one reference.
\<close>

theorem mkdir_existing_name:
  "find_entity (fs ex_fs_world) (heap ex_fs_world) (4096 + RPage_root) ''a'' = Some 11648 \<and>
   load_u32 (heap ex_fs_world) (link_off 8192 1) = INVALID_OFFSET \<and>
   load_u32 (heap ex_fs_world) (dpage_ent 8192 1 + Entity_refs) = 0 \<and>
   (\<exists>w'. fs_mkdir ''/a'' ex_fs_world = Some (COZYFS_OK, w') \<and>
      load_u32 (heap w') (link_off 8192 0) = 7552 \<and>
      heap w' (link_name 8192 0) = 97 \<and> heap w' (link_name 8192 0 + 1) = 0 \<and>
      load_u32 (heap w') (link_off 8192 1) = 7576 \<and>
      heap w' (link_name 8192 1) = 97 \<and> heap w' (link_name 8192 1 + 1) = 0 \<and>
      load_u32 (heap w') (dpage_ent 8192 1 + Entity_refs) = 1)"
proof -
  have "find_entity (fs ex_fs_world) (heap ex_fs_world) (4096 + RPage_root) ''a'' = Some 11648"
    using find_a by (simp add: ex_fs_world_simps RPage_root_def)
  moreover have "load_u32 (heap ex_fs_world) (link_off 8192 1) = INVALID_OFFSET"
    by (simp add: ex_fs_world_simps layout_defs ex_fs_heap_dir)
  moreover have "load_u32 (heap ex_fs_world) (dpage_ent 8192 1 + Entity_refs) = 0"
    by (simp add: ex_fs_world_simps layout_defs ex_fs_heap_dir)
  ultimately show ?thesis
    using fs_mkdir_example mkdir_heap_facts by simp
qed

text \<open>
  Claim C7, at an input where the code does something else. The root directory of the
  example has a link named \<^verbatim>\<open>a\<close> to the inode at address 11648, which has two
  references. \<^verbatim>\<open>remove_entity\<close> for that name returns the address of the inode, 11648,
  as its \<^verbatim>\<open>int\<close>, and changes nothing: the link stays and the count stays 2.
\<close>

theorem remove_entity_returns_pointer:
  "find_entity (fs ex_fs_world) (heap ex_fs_world) (4096 + RPage_root) ''a'' = Some 11648 \<and>
   load_u32 (heap ex_fs_world) (11648 + Entity_refs) = 2 \<and>
   remove_entity (4096 + RPage_root) ''a'' ENTITY_FILE ex_fs_world = Some (11648, ex_fs_world)"
proof -
  have "find_entity (fs ex_fs_world) (heap ex_fs_world) (4096 + RPage_root) ''a'' = Some 11648"
    using find_a by (simp add: ex_fs_world_simps RPage_root_def)
  moreover have "load_u32 (heap ex_fs_world) (11648 + Entity_refs) = 2"
    by (simp add: ex_fs_world_simps Entity_refs_def ex_fs_heap_file)
  ultimately show ?thesis
    using remove_entity_example by simp
qed

text \<open>
  Claim C9, at an input where the code does something else. Handle 0 of the example has
  generation \<^verbatim>\<open>0xFFFE\<close> and the descriptor -131072 is valid for it. \<^verbatim>\<open>close_\<close> returns
  \<^verbatim>\<open>COZYFS_OK\<close>, marks the handle unused, and leaves its generation at \<^verbatim>\<open>0xFFFF\<close>.
\<close>

theorem close_generation_all_ones:
  "unpack_fd (fs ex_fs_world) (heap ex_fs_world) (- 131072) = root_handle 4096 0 \<and>
   load_u16 (heap ex_fs_world) (root_handle 4096 0 + Handle_gen) = 0xFFFE \<and>
   fst (fs_close (- 131072) ex_fs_world) = COZYFS_OK \<and>
   heap (snd (fs_close (- 131072) ex_fs_world)) (root_handle 4096 0 + Handle_used) = 0 \<and>
   load_u16 (heap (snd (fs_close (- 131072) ex_fs_world))) (root_handle 4096 0 + Handle_gen) =
     0xFFFF"
proof -
  have "unpack_fd (fs ex_fs_world) (heap ex_fs_world) (- 131072) = root_handle 4096 0"
    by (simp add: unpack_fd_def ex_fs_world_simps attached_simps layout_defs Let_def
        ex_fs_heap_handle0)
  moreover have "load_u16 (heap ex_fs_world) (root_handle 4096 0 + Handle_gen) = 0xFFFE"
    by (simp add: ex_fs_world_simps layout_defs ex_fs_heap_handle0)
  ultimately show ?thesis
    by (simp add: fs_close_example layout_defs heap_simps)
qed

text \<open>
  Claim C5, at inputs where the code does something else. In the example \<^verbatim>\<open>a\<close> is a
  file with two references and nothing is below it. \<^verbatim>\<open>open_\<close> for \<^verbatim>\<open>/a\<close> returns
  \<^verbatim>\<open>EISDIR\<close>; \<^verbatim>\<open>open_\<close> for \<^verbatim>\<open>/a/x\<close> returns the descriptor 65537 (generation 1,
  handle 1), the handle is for the inode of \<^verbatim>\<open>a\<close>, and the count of that inode is
  still 2.
\<close>

theorem open_skips_last_component:
  "find_entity (fs ex_fs_world) (heap ex_fs_world) (4096 + RPage_root) ''a'' = Some 11648 \<and>
   load_u32 (heap ex_fs_world) (11648 + Entity_flags) = ENTITY_FILE \<and>
   load_u32 (heap ex_fs_world) (11648 + Entity_refs) = 2 \<and>
   find_entity (fs ex_fs_world) (heap ex_fs_world) 11648 ''x'' = Some NULL \<and>
   fs_open ''/a'' ex_fs_world = Some (- COZYFS_EISDIR, ex_fs_world) \<and>
   (\<exists>w'. fs_open ''/a/x'' ex_fs_world = Some (65537, w') \<and>
      load_u32 (heap w') (root_handle 4096 1 + Handle_entity) = ptr2off (fs w') 11648 \<and>
      load_u32 (heap w') (11648 + Entity_refs) = 2)"
proof -
  have "find_entity (fs ex_fs_world) (heap ex_fs_world) (4096 + RPage_root) ''a'' = Some 11648"
    using find_a by (simp add: ex_fs_world_simps RPage_root_def)
  moreover have "load_u32 (heap ex_fs_world) (11648 + Entity_flags) = ENTITY_FILE"
    by (simp add: ex_fs_world_simps Entity_flags_def ENTITY_FILE_def ex_fs_heap_file)
  moreover have "load_u32 (heap ex_fs_world) (11648 + Entity_refs) = 2"
    by (simp add: ex_fs_world_simps Entity_refs_def ex_fs_heap_file)
  moreover have "find_entity (fs ex_fs_world) (heap ex_fs_world) 11648 ''x'' = Some NULL"
    using find_x_under_a by (simp add: ex_fs_world_simps)
  moreover have "ptr2off (attached 4096) 11648 = 7552"
    by (simp add: ptr2off_def attached_simps scan_while_stop NULL_def Let_def)
  ultimately show ?thesis
    by (simp add: fs_open_example fs_open_a_example ex_fs_world_simps layout_defs heap_simps
        ex_fs_heap_file)
qed

text \<open>
  Claim C1, at an input where the code does something else. In the example the user
  page of the buffer is at address 12288 and the name of its first record starts with a
  zero byte when the transaction begins. After \<^verbatim>\<open>mkusr(fs, "bob")\<close>, which returns 0,
  \<^verbatim>\<open>cozyfs_transaction_rollback\<close> returns \<^verbatim>\<open>COZYFS_OK\<close>, the session has no patch and
  no transaction, and that byte of the buffer is 98, the letter \<^verbatim>\<open>b\<close>.
\<close>

theorem rollback_keeps_user_record:
  "off2ptr (fs ex_txn_world) (load_u32 (heap ex_txn_world) (4096 + RPage_tail_upage)) = 12288 \<and>
   heap ex_txn_world (upage_user 12288 0 + User_name) = 0 \<and>
   (\<exists>w1 w2. mkusr ''bob'' ex_txn_world = (0, w1) \<and>
      cozyfs_transaction_rollback w1 = Some (COZYFS_OK, w2) \<and>
      patch_count (fs w2) = 0 \<and> transaction (fs w2) = TRANSACTION_OFF \<and>
      heap w2 (upage_user 12288 0 + User_name) = 98)"
proof -
  have "off2ptr (fs ex_txn_world) (load_u32 (heap ex_txn_world) (4096 + RPage_tail_upage)) = 12288"
    by (simp add: off2ptr_def ex_txn_world_simps attached_simps scan_while_stop heap_simps
        ex_fs_heap_users RPage_tail_upage_def INVALID_OFFSET_def Let_def)
  moreover have "heap ex_txn_world (upage_user 12288 0 + User_name) = 0"
    by (simp add: ex_txn_world_simps upage_user_def User_name_def leaked_byte)
  ultimately show ?thesis
    by (simp add: mkusr_def create_user_example rollback_example upage_user_def User_name_def
        leaked_byte)
qed

end
